theory Spec2Isabelle
  imports Main "HOL-Library.Word"
begin

unbundle bit_operations_syntax

section \<open>Python values and exceptions\<close>

text \<open>
  Python integers are unbounded: they are modelled as \<open>int\<close>. Every exception the
  modelled code can raise is a value of \<open>py_error\<close>; a function that can raise returns
  \<open>py_error + 'a\<close>, with \<open>Inl\<close> the exception.
\<close>

datatype py_error =
    KeyError
  | TypeError
  | ValueError
  | AttributeError
  | StopIteration
  | OverflowError
  | StructError
  | PyException
  | LibraryError

section \<open>GID codec (pytmx.py, decode_gid)\<close>

text \<open>
  Modelled from the spec: the module \<open>constants\<close> that pytmx.py imports with
  \<open>from .constants import *\<close>. The spec gives the internal flag values 1/2/4 for
  FLIP_X / FLIP_Y / ROTATED, and the three fixed high bits of a 32-bit raw GID
  (horizontal flip, vertical flip, diagonal flip/rotate, in this order from the top
  bit; \<open>0x80000007\<close> has the horizontal-flip bit set).
\<close>

definition TRANS_FLIPX :: int where "TRANS_FLIPX = 1"
definition TRANS_FLIPY :: int where "TRANS_FLIPY = 2"
definition TRANS_ROT :: int where "TRANS_ROT = 4"

definition GID_TRANS_FLIPX :: int where "GID_TRANS_FLIPX = 2 ^ 31"
definition GID_TRANS_FLIPY :: int where "GID_TRANS_FLIPY = 2 ^ 30"
definition GID_TRANS_ROT :: int where "GID_TRANS_ROT = 2 ^ 29"

text \<open>
  \<^verbatim>\<open>
  def decode_gid(raw_gid):
      flags = 0
      if raw_gid & GID_TRANS_FLIPX == GID_TRANS_FLIPX: flags += TRANS_FLIPX
      if raw_gid & GID_TRANS_FLIPY == GID_TRANS_FLIPY: flags += TRANS_FLIPY
      if raw_gid & GID_TRANS_ROT == GID_TRANS_ROT: flags += TRANS_ROT
      gid = raw_gid & ~(GID_TRANS_FLIPX | GID_TRANS_FLIPY | GID_TRANS_ROT)
      return gid, flags
  \<close>
\<close>

definition decode_gid :: "int \<Rightarrow> int \<times> int" where
  "decode_gid raw_gid =
     (let flags0 = 0;
          flags1 = (if raw_gid AND GID_TRANS_FLIPX = GID_TRANS_FLIPX
                    then flags0 + TRANS_FLIPX else flags0);
          flags2 = (if raw_gid AND GID_TRANS_FLIPY = GID_TRANS_FLIPY
                    then flags1 + TRANS_FLIPY else flags1);
          flags3 = (if raw_gid AND GID_TRANS_ROT = GID_TRANS_ROT
                    then flags2 + TRANS_ROT else flags2);
          gid = raw_gid AND NOT (GID_TRANS_FLIPX OR GID_TRANS_FLIPY OR GID_TRANS_ROT)
      in (gid, flags3))"

text \<open>
  The recombination the round-trip property of the spec speaks of (there is no encoder
  in the source): each flag value goes back to its fixed bit position and is joined
  with the base GID.
\<close>

definition encode_gid_spec :: "int \<times> int \<Rightarrow> int" where
  "encode_gid_spec p =
     (case p of (gid, flags) \<Rightarrow>
        gid OR (if flags AND TRANS_FLIPX = TRANS_FLIPX then GID_TRANS_FLIPX else 0)
            OR (if flags AND TRANS_FLIPY = TRANS_FLIPY then GID_TRANS_FLIPY else 0)
            OR (if flags AND TRANS_ROT = TRANS_ROT then GID_TRANS_ROT else 0))"

section \<open>Python built-ins on strings\<close>

text \<open>
  A string is a list of characters, a character being a code point below 256 (the type
  \<open>char\<close> has 8 bits); text with larger code points is outside the model. The built-ins
  are those of Python 3 on \<open>str\<close>. On these code points:
  \<^item> \<open>is_space\<close> is \<open>str.isspace\<close>, the characters that \<open>str.strip()\<close> removes: tab, line
    feed, vertical tab, form feed, carriage return (9 to 13), the separators \<open>0x1c\<close> to
    \<open>0x1f\<close>, space, next line (\<open>0x85\<close>) and no-break space (\<open>0xa0\<close>);
  \<^item> \<open>int_space\<close> is the whitespace that \<open>int()\<close> skips around a literal: 9 to 13, space,
    \<open>0x85\<close> and \<open>0xa0\<close>, but not the separators \<open>0x1c\<close> to \<open>0x1f\<close>;
  \<^item> \<open>lower_char\<close> is \<open>str.lower()\<close> on one character: the letters \<open>A\<close> to \<open>Z\<close> and the
    Latin-1 capitals \<open>0xc0\<close> to \<open>0xde\<close> (without the sign \<open>0xd7\<close>) move up by 32;
  \<^item> the decimal digits are \<open>0\<close> to \<open>9\<close>.
\<close>

definition is_space :: "char \<Rightarrow> bool" where
  "is_space c \<longleftrightarrow>
     (let n = (of_char c :: nat)
      in (9 \<le> n \<and> n \<le> 13) \<or> (28 \<le> n \<and> n \<le> 32) \<or> n = 133 \<or> n = 160)"

definition py_strip :: "string \<Rightarrow> string" where
  "py_strip s = rev (dropWhile is_space (rev (dropWhile is_space s)))"

definition int_space :: "char \<Rightarrow> bool" where
  "int_space c \<longleftrightarrow>
     (let n = (of_char c :: nat) in (9 \<le> n \<and> n \<le> 13) \<or> n = 32 \<or> n = 133 \<or> n = 160)"

definition int_strip :: "string \<Rightarrow> string" where
  "int_strip s = rev (dropWhile int_space (rev (dropWhile int_space s)))"

definition lower_char :: "char \<Rightarrow> char" where
  "lower_char c =
     (let n = (of_char c :: nat)
      in if (65 \<le> n \<and> n \<le> 90) \<or> (192 \<le> n \<and> n \<le> 214) \<or> (216 \<le> n \<and> n \<le> 222)
         then char_of (n + 32) else c)"

definition py_lower :: "string \<Rightarrow> string" where
  "py_lower s = map lower_char s"

definition is_digit :: "char \<Rightarrow> bool" where
  "is_digit c \<longleftrightarrow> (let n = (of_char c :: nat) in 48 \<le> n \<and> n \<le> 57)"

definition digit_val :: "char \<Rightarrow> int" where
  "digit_val c = int (of_char c) - 48"

text \<open>
  \<open>int(s)\<close> on a string: the whitespace of \<open>int_space\<close> is skipped at both ends, then
  come an optional sign and a nonempty run of decimal digits, in which single underscores
  may stand between digits.
  \<open>None\<close> is the ValueError of a string that is no integer literal.
  \<open>py_digits acc cs\<close> reads the rest \<open>cs\<close> of the digits after a digit.
\<close>

fun py_digits :: "int \<Rightarrow> string \<Rightarrow> int option" where
  "py_digits acc [] = Some acc"
| "py_digits acc [c] = (if is_digit c then Some (acc * 10 + digit_val c) else None)"
| "py_digits acc (c # d # cs) =
     (if is_digit c then py_digits (acc * 10 + digit_val c) (d # cs)
      else if c = CHR ''_'' \<and> is_digit d then py_digits (acc * 10 + digit_val d) cs
      else None)"

definition py_unsigned :: "string \<Rightarrow> int option" where
  "py_unsigned s =
     (case s of
        [] \<Rightarrow> None
      | c # cs \<Rightarrow> if is_digit c then py_digits (digit_val c) cs else None)"

definition py_int :: "string \<Rightarrow> int option" where
  "py_int s =
     (case int_strip s of
        [] \<Rightarrow> None
      | c # cs \<Rightarrow>
          if c = CHR ''-'' then map_option uminus (py_unsigned cs)
          else if c = CHR ''+'' then py_unsigned cs
          else py_unsigned (c # cs))"

text \<open>\<open>str.split(sep)\<close> for a separator of one character: never an empty list.\<close>

fun py_split :: "char \<Rightarrow> string \<Rightarrow> string list" where
  "py_split sep [] = [[]]"
| "py_split sep (c # cs) =
     (if c = sep then [] # py_split sep cs
      else (case py_split sep cs of
              [] \<Rightarrow> [[c]]
            | t # ts \<Rightarrow> (c # t) # ts))"

section \<open>Property decoding (pytmx.py, handle_bool, types, set_properties)\<close>

text \<open>
  \<^verbatim>\<open>
  def handle_bool(text):
      try:
          return bool(int(text))
      except:
          pass
      try:
          text = str(text).lower()
          if text == "true":  return True
          if text == "yes":   return True
          if text == "false": return False
          if text == "no":    return False
      except:
          pass
      raise ValueError
  \<close>
\<close>

definition handle_bool :: "string \<Rightarrow> py_error + bool" where
  "handle_bool text =
     (case py_int text of
        Some n \<Rightarrow> Inr (n \<noteq> 0)
      | None \<Rightarrow>
          (let text' = py_lower text in
           if text' = ''true'' then Inr True
           else if text' = ''yes'' then Inr True
           else if text' = ''false'' then Inr False
           else if text' = ''no'' then Inr False
           else Inl ValueError))"

text \<open>
  Python floats are not modelled: \<open>pyfloat\<close> is an abstract type, and \<open>float(s)\<close> is a
  parameter \<open>py_float\<close> of every function that may call it (\<open>None\<close> is its ValueError).
\<close>

typedecl pyfloat

datatype propval = PStr string | PInt int | PFloat pyfloat | PBool bool

text \<open>
  A property dictionary. A key is the \<open>name\<close> attribute of a property element, which
  is None when the attribute is missing.
\<close>

type_synonym props = "string option \<rightharpoonup> propval"

text \<open>\<open>str(v)\<close> of a string or None.\<close>

definition py_str :: "string option \<Rightarrow> string" where
  "py_str v = (case v of None \<Rightarrow> ''None'' | Some s \<Rightarrow> s)"

text \<open>
  The converters that the table \<open>types\<close> holds, applied to the value of an attribute
  (a string, or None when the attribute is missing): \<open>int(None)\<close> and \<open>float(None)\<close>
  raise TypeError. \<open>handle_bool(None)\<close> is \<open>handle_bool("None")\<close>: \<open>int\<close> raises in both,
  and \<open>str(None).lower()\<close> is \<open>"none"\<close>.
\<close>

definition conv_str :: "string option \<Rightarrow> py_error + propval" where
  "conv_str v = Inr (PStr (py_str v))"

definition conv_int :: "string option \<Rightarrow> py_error + propval" where
  "conv_int v =
     (case v of
        None \<Rightarrow> Inl TypeError
      | Some s \<Rightarrow> (case py_int s of None \<Rightarrow> Inl ValueError | Some n \<Rightarrow> Inr (PInt n)))"

definition conv_float :: "(string \<Rightarrow> pyfloat option) \<Rightarrow> string option \<Rightarrow> py_error + propval" where
  "conv_float py_float v =
     (case v of
        None \<Rightarrow> Inl TypeError
      | Some s \<Rightarrow> (case py_float s of None \<Rightarrow> Inl ValueError | Some x \<Rightarrow> Inr (PFloat x)))"

definition conv_bool :: "string option \<Rightarrow> py_error + propval" where
  "conv_bool v = (case handle_bool (py_str v) of Inl e \<Rightarrow> Inl e | Inr b \<Rightarrow> Inr (PBool b))"

text \<open>
  \<^verbatim>\<open>
  types = defaultdict(lambda: str)
  types.update({
      "version": float, "orientation": str, "width": int, "height": int,
      "tilewidth": int, "tileheight": int, "firstgid": int, "source": str,
      "name": str, "spacing": int, "margin": int, "trans": str, "id": int,
      "opacity": float, "visible": handle_bool, "encoding": str,
      "compression": str, "gid": int, "type": str, "x": float, "y": float,
      "value": str, "rotation": float,
  })
  \<close>
\<close>

definition types ::
  "(string \<Rightarrow> pyfloat option) \<Rightarrow> string \<Rightarrow> string option \<Rightarrow> py_error + propval" where
  "types py_float k =
     (if k \<in> {''version'', ''opacity'', ''x'', ''y'', ''rotation''} then conv_float py_float
      else if k \<in> {''width'', ''height'', ''tilewidth'', ''tileheight'', ''firstgid'',
                    ''spacing'', ''margin'', ''id'', ''gid''} then conv_int
      else if k = ''visible'' then conv_bool
      else conv_str)"

section \<open>XML trees\<close>

text \<open>
  An ElementTree node: tag, attributes, text (None when the element has none) and child
  elements. \<open>xml_get\<close> is \<open>node.get(key)\<close>, \<open>findall\<close> and \<open>find\<close> select children by
  tag, \<open>getiterator\<close> (the \<open>Element.iter\<close> of later Python versions) lists the node
  itself and all its descendants with the tag, in document order.
\<close>

datatype xml = Element (tag: string) (attrib: "(string \<times> string) list")
  (node_text: "string option") (children: "xml list")

definition xml_get :: "xml \<Rightarrow> string \<Rightarrow> string option" where
  "xml_get node key = map_of (attrib node) key"

definition findall :: "xml \<Rightarrow> string \<Rightarrow> xml list" where
  "findall node t = filter (\<lambda>c. tag c = t) (children node)"

definition find :: "xml \<Rightarrow> string \<Rightarrow> xml option" where
  "find node t = (case findall node t of [] \<Rightarrow> None | c # cs \<Rightarrow> Some c)"

fun getiterator :: "xml \<Rightarrow> string \<Rightarrow> xml list" where
  "getiterator (Element tg a tx cs) t =
     (if tg = t then [Element tg a tx cs] else []) @ concat (map (\<lambda>c. getiterator c t) cs)"

text \<open>
  \<^verbatim>\<open>
  def set_properties(self, node):
      d = dict()
      for child in node.findall('properties'):
          for subnode in child.findall('property'):
              k = subnode.get('name')
              v = subnode.get('value')
              d[k] = types[str(k)](v)
      self.properties = d
  \<close>
  \<open>read_properties\<close> is the dictionary \<open>d\<close> that the loops build, or the exception of the
  first converter that raises; the caller stores it in its \<open>properties\<close> field.
\<close>

fun property_loop ::
  "(string \<Rightarrow> pyfloat option) \<Rightarrow> props \<Rightarrow> xml list \<Rightarrow> py_error + props" where
  "property_loop py_float d [] = Inr d"
| "property_loop py_float d (subnode # rest) =
     (let k = xml_get subnode ''name'';
          v = xml_get subnode ''value''
      in case types py_float (py_str k) v of
           Inl e \<Rightarrow> Inl e
         | Inr x \<Rightarrow> property_loop py_float (d(k \<mapsto> x)) rest)"

definition read_properties :: "(string \<Rightarrow> pyfloat option) \<Rightarrow> xml \<Rightarrow> py_error + props" where
  "read_properties py_float node =
     property_loop py_float Map.empty
       (concat (map (\<lambda>child. findall child ''property'') (findall node ''properties'')))"

section \<open>The element classes (pytmx.py)\<close>

text \<open>
  Each class is a record of the fields its constructor sets; a field name carries the
  class as a prefix where two classes share it. Fields that hold a float constant which
  no code assigns again (\<open>opacity = 1.0\<close> of a TileLayer, \<open>version = 0.0\<close> of a TiledMap)
  and the list \<open>images\<close>, filled by an image loader outside this module, are left out.
\<close>

record tile_layer =
  tl_properties :: props
  tl_data :: "int list list"
  tl_name :: "string option"
  tl_visible :: bool
  tl_height :: int
  tl_width :: int

definition TileLayer_init :: tile_layer where
  "TileLayer_init =
     \<lparr> tl_properties = Map.empty, tl_data = [], tl_name = None, tl_visible = True,
       tl_height = 0, tl_width = 0 \<rparr>"

text \<open>
  An ImageLayer keeps \<open>opacity\<close> and \<open>visible\<close> as the attribute's string when the node
  has one, and as the constructor's integer 1 otherwise.
\<close>

record image_layer =
  il_properties :: props
  il_source :: "string option"
  il_trans :: "string option"
  il_name :: "string option"
  il_opacity :: "int + string"
  il_visible :: "int + string"
  il_gid :: int

definition ImageLayer_init :: image_layer where
  "ImageLayer_init =
     \<lparr> il_properties = Map.empty, il_source = None, il_trans = None, il_name = None,
       il_opacity = Inl 1, il_visible = Inl 1, il_gid = 0 \<rparr>"

text \<open>Of an Object, the two fields that the final pass of \<open>TiledMap.from_xml\<close> uses.\<close>

record tiled_object =
  ob_properties :: props
  ob_gid :: int

record object_group =
  og_properties :: props
  og_objects :: "tiled_object list"
  og_name :: "string option"
  og_color :: "string option"
  og_opacity :: int
  og_visible :: int

definition ObjectGroup_init :: object_group where
  "ObjectGroup_init =
     \<lparr> og_properties = Map.empty, og_objects = [], og_name = None, og_color = None,
       og_opacity = 1, og_visible = 1 \<rparr>"

record tileset =
  ts_properties :: props
  ts_firstgid :: int
  ts_source :: "string option"
  ts_name :: "string option"
  ts_tilewidth :: int
  ts_tileheight :: int
  ts_spacing :: int
  ts_margin :: int
  ts_trans :: "string option"
  ts_width :: int
  ts_height :: int

definition Tileset_init :: tileset where
  "Tileset_init =
     \<lparr> ts_properties = Map.empty, ts_firstgid = 0, ts_source = None, ts_name = None,
       ts_tilewidth = 0, ts_tileheight = 0, ts_spacing = 0, ts_margin = 0, ts_trans = None,
       ts_width = 0, ts_height = 0 \<rparr>"

datatype layer = TileLayerL tile_layer | ImageLayerL image_layer | ObjectGroupL object_group

text \<open>
  What \<open>parse_properties\<close> returns and what the tile-property table stores: None or a
  dictionary.
\<close>

datatype pyobj = PyNone | PyDict props

section \<open>GID registry (pytmx.py, class TiledMap)\<close>

text \<open>
  \<open>imagemap\<close> is a dict keyed by \<open>(tiled_gid, flags)\<close>. Its constructor stores the
  integer 0 under \<open>(0, 0)\<close>; \<open>register_gid\<close> stores tuples \<open>(gid, flags)\<close>. Both
  kinds of value are kept apart, since \<open>register_gid\<close> subscripts what it finds
  (\<open>self.imagemap[...][0]\<close>), which raises TypeError on an integer.
\<close>

datatype imagemap_entry = GidInt int | GidPair int int

text \<open>
  \<open>gidmap\<close> is a \<open>defaultdict(list)\<close>: a dict whose subscript inserts an empty list
  under a missing key before returning it (\<open>defaultdict_getitem\<close>).
  \<open>tile_properties\<close> maps a compact GID to what \<open>set_tile_properties\<close> stored for it.
  \<open>layers\<close> is an OrderedDict in the constructor, which \<open>add_layer\<close> treats as a list.
\<close>

record tiled_map =
  properties :: props
  layers :: "layer list"
  tilesets :: "tileset list"
  tile_properties :: "int \<rightharpoonup> pyobj"
  gidmap :: "int \<rightharpoonup> (int \<times> int) list"
  imagemap :: "(int \<times> int) \<rightharpoonup> imagemap_entry"
  maxgid :: int
  orientation :: "string option"
  width :: int
  height :: int
  tilewidth :: int
  tileheight :: int
  background_color :: "string option"

definition defaultdict_getitem ::
  "('k \<rightharpoonup> 'v list) \<Rightarrow> 'k \<Rightarrow> 'v list \<times> ('k \<rightharpoonup> 'v list)" where
  "defaultdict_getitem d k =
     (case d k of
        Some v \<Rightarrow> (v, d)
      | None \<Rightarrow> ([], d(k \<mapsto> [])))"

text \<open>
  \<^verbatim>\<open>
  def __init__(self):
      TiledElement.__init__(self)      # self.properties = dict()
      self.layers = OrderedDict()
      self.tilesets = list()
      self.tile_properties = dict()
      self.gidmap = defaultdict(list)
      self.imagemap = dict()
      self.maxgid = 1
      self.imagemap[(0, 0)] = 0
      self.images = list()
      self.version = 0.0
      self.orientation = None
      self.width = 0
      self.height = 0
      self.tilewidth = 0
      self.tileheight = 0
      self.background_color = None
  \<close>
\<close>

definition TiledMap_init :: tiled_map where
  "TiledMap_init =
     \<lparr> properties = Map.empty,
       layers = [],
       tilesets = [],
       tile_properties = Map.empty,
       gidmap = Map.empty,
       imagemap = [(0, 0) \<mapsto> GidInt 0],
       maxgid = 1,
       orientation = None,
       width = 0,
       height = 0,
       tilewidth = 0,
       tileheight = 0,
       background_color = None \<rparr>"

text \<open>
  \<^verbatim>\<open>
  def register_gid(self, tiled_gid, flags=0):
      if tiled_gid:
          try:
              return self.imagemap[(tiled_gid, flags)][0]
          except KeyError:
              gid = self.maxgid
              self.maxgid += 1
              self.imagemap[(tiled_gid, flags)] = (gid, flags)
              self.gidmap[tiled_gid].append((gid, flags))
              return gid
      else:
          return 0
  \<close>
  The result is the returned GID and the map after the call.
\<close>

definition register_gid ::
  "tiled_map \<Rightarrow> int \<Rightarrow> int \<Rightarrow> py_error + (int \<times> tiled_map)" where
  "register_gid self tiled_gid flags =
     (if tiled_gid \<noteq> 0 then
        (case imagemap self (tiled_gid, flags) of
           Some (GidPair g f) \<Rightarrow> Inr (g, self)
         | Some (GidInt n) \<Rightarrow> Inl TypeError
         | None \<Rightarrow>
             (let gid = maxgid self;
                  self1 = self\<lparr>maxgid := maxgid self + 1\<rparr>;
                  self2 = self1\<lparr>imagemap := (imagemap self1)((tiled_gid, flags) \<mapsto> GidPair gid flags)\<rparr>;
                  (l, d) = defaultdict_getitem (gidmap self2) tiled_gid;
                  self3 = self2\<lparr>gidmap := d(tiled_gid \<mapsto> l @ [(gid, flags)])\<rparr>
              in Inr (gid, self3)))
      else Inr (0, self))"

text \<open>
  \<^verbatim>\<open>
  def map_gid(self, tiled_gid):
      try:
          return self.gidmap[int(tiled_gid)]
      except KeyError:
          return None
      except TypeError:
          ...
          raise TypeError
  \<close>
  The argument is a Python integer, so \<open>int(tiled_gid)\<close> is the argument itself and
  cannot raise TypeError; the subscript of a defaultdict cannot raise KeyError. The
  subscript may insert the key, so the map after the call is part of the result.
\<close>

definition map_gid ::
  "tiled_map \<Rightarrow> int \<Rightarrow> py_error + ((int \<times> int) list \<times> tiled_map)" where
  "map_gid self tiled_gid =
     (case defaultdict_getitem (gidmap self) tiled_gid of
        (l, d) \<Rightarrow> Inr (l, self\<lparr>gidmap := d\<rparr>))"

text \<open>
  \<^verbatim>\<open>
  def set_tile_properties(self, gid, properties):
      self.tile_properties[gid] = properties
  \<close>
\<close>

definition set_tile_properties :: "tiled_map \<Rightarrow> int \<Rightarrow> pyobj \<Rightarrow> tiled_map" where
  "set_tile_properties self gid props =
     self\<lparr>tile_properties := (tile_properties self)(gid \<mapsto> props)\<rparr>"

text \<open>
  A history of registry calls on one map, run in order. A call that raises leaves the
  map as it was (both methods raise, if at all, before they write).
\<close>

datatype call = Register int int | Lookup int

datatype outcome = Gid int | Origins "(int \<times> int) list" | Raised py_error

fun run_calls :: "tiled_map \<Rightarrow> call list \<Rightarrow> outcome list \<times> tiled_map" where
  "run_calls self [] = ([], self)"
| "run_calls self (Register b f # cs) =
     (case register_gid self b f of
        Inl e \<Rightarrow> (case run_calls self cs of (os, s) \<Rightarrow> (Raised e # os, s))
      | Inr (g, self') \<Rightarrow> (case run_calls self' cs of (os, s) \<Rightarrow> (Gid g # os, s)))"
| "run_calls self (Lookup b # cs) =
     (case map_gid self b of
        Inl e \<Rightarrow> (case run_calls self cs of (os, s) \<Rightarrow> (Raised e # os, s))
      | Inr (l, self') \<Rightarrow> (case run_calls self' cs of (os, s) \<Rightarrow> (Origins l # os, s)))"

text \<open>
  The pairs with a nonzero base GID that a history registers, without repetition, in the
  order of their first registration (starting from the pairs \<open>D\<close> already seen).
\<close>

fun first_seen :: "(int \<times> int) list \<Rightarrow> call list \<Rightarrow> (int \<times> int) list" where
  "first_seen D [] = D"
| "first_seen D (Register b f # cs) =
     first_seen (if b \<noteq> 0 \<and> (b, f) \<notin> set D then D @ [(b, f)] else D) cs"
| "first_seen D (Lookup b # cs) = first_seen D cs"

text \<open>The position of the first occurrence of an element in a list.\<close>

fun pos :: "'a list \<Rightarrow> 'a \<Rightarrow> nat" where
  "pos [] x = 0"
| "pos (y # ys) x = (if x = y then 0 else Suc (pos ys x))"

text \<open>
  What the reverse table should hold for base GID \<open>b\<close> when the pairs \<open>D\<close> were
  allocated in this order, the first one getting compact GID \<open>k + 1\<close>.
\<close>

fun origins_from :: "nat \<Rightarrow> (int \<times> int) list \<Rightarrow> int \<Rightarrow> (int \<times> int) list" where
  "origins_from k [] b = []"
| "origins_from k (p # D) b =
     (if fst p = b then (1 + int k, snd p) # origins_from (Suc k) D b
      else origins_from (Suc k) D b)"

text \<open>
  The registry invariant: \<open>D\<close> lists the allocated pairs in allocation order; the
  counter, the forward table and the reverse table agree with it.
\<close>

definition registry_inv :: "tiled_map \<Rightarrow> (int \<times> int) list \<Rightarrow> bool" where
  "registry_inv self D \<longleftrightarrow>
     distinct D \<and> (\<forall>p \<in> set D. fst p \<noteq> 0) \<and>
     maxgid self = 1 + int (length D) \<and>
     (\<forall>b f. b \<noteq> 0 \<longrightarrow>
        imagemap self (b, f) =
          (if (b, f) \<in> set D then Some (GidPair (1 + int (pos D (b, f))) f) else None)) \<and>
     (\<forall>b. fst (defaultdict_getitem (gidmap self) b) = origins_from 0 D b)"

section \<open>Library functions taken as parameters\<close>

text \<open>
  Functions of Python's standard library whose results the module only passes on:
  \<open>float\<close> on a string, \<open>base64.b64decode\<close>, reading a \<open>gzip.GzipFile\<close> over
  \<open>BytesIO(data)\<close>, \<open>zlib.decompress\<close> (both receive \<open>data\<close>, which may be None), and
  \<open>ElementTree.fromstring\<close>. Each returns its value or the exception it raises.
\<close>

type_synonym byte = "8 word"

record pylib =
  lib_float :: "string \<Rightarrow> pyfloat option"
  lib_b64decode :: "string \<Rightarrow> py_error + byte list"
  lib_gzip_read :: "byte list option \<Rightarrow> py_error + byte list"
  lib_zlib_decompress :: "byte list option \<Rightarrow> py_error + byte list"
  lib_fromstring :: "string \<Rightarrow> py_error + xml"

section \<open>Tile layers (pytmx.py, TileLayer.from_xml)\<close>

text \<open>\<open>int(v)\<close> for the value of an attribute (None when the attribute is missing).\<close>

definition int_of_attr :: "string option \<Rightarrow> py_error + int" where
  "int_of_attr v =
     (case v of
        None \<Rightarrow> Inl TypeError
      | Some s \<Rightarrow> (case py_int s of None \<Rightarrow> Inl ValueError | Some n \<Rightarrow> Inr n))"

text \<open>The truth value of an attribute: None and the empty string are false.\<close>

definition truthy :: "string option \<Rightarrow> bool" where
  "truthy v = (case v of None \<Rightarrow> False | Some s \<Rightarrow> s \<noteq> [])"

text \<open>
  The iterator \<open>next_gid\<close>. All three iterators of the source are lazy: an element is
  computed when \<open>next\<close> asks for it, and may raise then. An iterator is the list of its
  elements still to come, each the value or the exception that computing it gives;
  past the last one, \<open>next\<close> raises StopIteration. \<open>next_gid\<close> itself may still be None,
  and \<open>next(None)\<close> raises TypeError.
\<close>

type_synonym gid_iter = "(py_error + int) list option"

text \<open>
  \<^verbatim>\<open>
  next_gid = map(int, "".join(
      line.strip() for line in data_node.text.strip()
  ).split(","))
  \<close>
  Iterating over a string gives its characters, so \<open>line\<close> is a string of one character.
\<close>

definition csv_tokens :: "string \<Rightarrow> string list" where
  "csv_tokens txt =
     py_split CHR '','' (concat (map (\<lambda>line. py_strip [line]) (py_strip txt)))"

definition csv_iter :: "string \<Rightarrow> (py_error + int) list" where
  "csv_iter txt = map (\<lambda>tok. int_of_attr (Some tok)) (csv_tokens txt)"

text \<open>
  \<^verbatim>\<open>
  def get_children(parent):
      for child in parent.findall('tile'):
          yield int(child.get('gid'))
  \<close>
\<close>

definition get_children :: "xml \<Rightarrow> (py_error + int) list" where
  "get_children parent = map (\<lambda>child. int_of_attr (xml_get child ''gid'')) (findall parent ''tile'')"

text \<open>
  \<^verbatim>\<open>
  fmt = struct.Struct('<L')
  iterator = (data[i:i + 4] for i in range(0, len(data), 4))
  next_gid = (fmt.unpack(i)[0] for i in iterator)
  \<close>
  \<open>unpack\<close> raises \<open>struct.error\<close> on a slice that is not 4 bytes long.
\<close>

fun slices4 :: "byte list \<Rightarrow> byte list list" where
  "slices4 (a # b # c # d # rest) = [a, b, c, d] # slices4 rest"
| "slices4 [] = []"
| "slices4 bs = [bs]"

definition unpack_L :: "byte list \<Rightarrow> py_error + int" where
  "unpack_L bs =
     (case bs of
        [a, b, c, d] \<Rightarrow>
          Inr (int (unat a) + 256 * int (unat b) + 65536 * int (unat c) + 16777216 * int (unat d))
      | _ \<Rightarrow> Inl StructError)"

definition bytes_iter :: "byte list \<Rightarrow> (py_error + int) list" where
  "bytes_iter data = map unpack_L (slices4 data)"

text \<open>
  The payload decoder: from \<open>encoding = data_node.get('encoding', None)\<close> to the choice
  of the iterator.
  \<^verbatim>\<open>
  encoding = data_node.get('encoding', None)
  if encoding == 'base64':
      data = b64decode(data_node.text.strip())
  elif encoding == 'csv':
      next_gid = map(int, ...)
  elif encoding:
      raise Exception
  compression = data_node.get('compression', None)
  if compression == 'gzip':
      with gzip.GzipFile(fileobj=six.BytesIO(data)) as fh:
          data = fh.read()
  elif compression == 'zlib':
      data = zlib.decompress(data)
  elif compression:
      raise Exception
  if encoding == next_gid is None:
      next_gid = get_children(data_node)
  elif data:
      if type(data) == bytes:
          next_gid = (fmt.unpack(i)[0] for i in iterator)
      else:
          raise Exception
  \<close>
  \<open>data_node.text.strip()\<close> raises AttributeError when the element has no text.
  \<open>encoding == next_gid is None\<close> is the chain \<open>encoding == next_gid and next_gid is None\<close>.
  \<open>data\<close> is None or bytes here, so the test \<open>type(data) == bytes\<close> holds wherever it
  is reached.
\<close>

definition decode_encoding ::
  "pylib \<Rightarrow> xml \<Rightarrow> py_error + (byte list option \<times> gid_iter)" where
  "decode_encoding lib data_node =
     (let encoding = xml_get data_node ''encoding'' in
      if encoding = Some ''base64'' then
        (case node_text data_node of
           None \<Rightarrow> Inl AttributeError
         | Some txt \<Rightarrow>
             (case lib_b64decode lib (py_strip txt) of
                Inl e \<Rightarrow> Inl e
              | Inr data \<Rightarrow> Inr (Some data, None)))
      else if encoding = Some ''csv'' then
        (case node_text data_node of
           None \<Rightarrow> Inl AttributeError
         | Some txt \<Rightarrow> Inr (None, Some (csv_iter txt)))
      else if truthy encoding then Inl PyException
      else Inr (None, None))"

definition decode_compression ::
  "pylib \<Rightarrow> xml \<Rightarrow> byte list option \<Rightarrow> py_error + byte list option" where
  "decode_compression lib data_node data =
     (let compression = xml_get data_node ''compression'' in
      if compression = Some ''gzip'' then
        (case lib_gzip_read lib data of Inl e \<Rightarrow> Inl e | Inr d \<Rightarrow> Inr (Some d))
      else if compression = Some ''zlib'' then
        (case lib_zlib_decompress lib data of Inl e \<Rightarrow> Inl e | Inr d \<Rightarrow> Inr (Some d))
      else if truthy compression then Inl PyException
      else Inr data)"

definition choose_iter :: "xml \<Rightarrow> byte list option \<Rightarrow> gid_iter \<Rightarrow> gid_iter" where
  "choose_iter data_node data next_gid =
     (if xml_get data_node ''encoding'' = None \<and> next_gid = None
      then Some (get_children data_node)
      else (case data of
              Some (b # bs) \<Rightarrow> Some (bytes_iter (b # bs))
            | _ \<Rightarrow> next_gid))"

definition decode_payload :: "pylib \<Rightarrow> xml \<Rightarrow> py_error + gid_iter" where
  "decode_payload lib data_node =
     (case decode_encoding lib data_node of
        Inl e \<Rightarrow> Inl e
      | Inr (data, next_gid) \<Rightarrow>
          (case decode_compression lib data_node data of
             Inl e \<Rightarrow> Inl e
           | Inr data' \<Rightarrow> Inr (choose_iter data_node data' next_gid)))"

text \<open>
  The grid.
  \<^verbatim>\<open>
  def init():
      return [0] * elem.width
  reg = elem.parent.register_gid
  elem.data = tuple(array.array('H', init()) for i in range(elem.height))
  for (y, x) in product(range(elem.height), range(elem.width)):
      elem.data[y][x] = reg(*decode_gid(next(next_gid)))
  return elem
  \<close>
  A row is an array of unsigned 16-bit items: storing a value outside \<open>0..65535\<close> raises
  OverflowError. \<open>fill_cells\<close> is the loop over the cells still to fill; \<open>fill_grid\<close> takes
  the layer \<open>elem\<close>, the map \<open>elem.parent\<close> and the iterator, and returns the layer and the
  map after the loop.
\<close>

definition next_item :: "gid_iter \<Rightarrow> py_error + (int \<times> gid_iter)" where
  "next_item it =
     (case it of
        None \<Rightarrow> Inl TypeError
      | Some [] \<Rightarrow> Inl StopIteration
      | Some (Inl e # rest) \<Rightarrow> Inl e
      | Some (Inr v # rest) \<Rightarrow> Inr (v, Some rest))"

fun fill_cells ::
  "tiled_map \<Rightarrow> gid_iter \<Rightarrow> (nat \<times> nat) list \<Rightarrow> int list list \<Rightarrow>
     py_error + (int list list \<times> tiled_map)" where
  "fill_cells parent it [] data = Inr (data, parent)"
| "fill_cells parent it ((y, x) # cells) data =
     (case next_item it of
        Inl e \<Rightarrow> Inl e
      | Inr (raw_gid, it') \<Rightarrow>
          (case decode_gid raw_gid of
             (gid, flags) \<Rightarrow>
               (case register_gid parent gid flags of
                  Inl e \<Rightarrow> Inl e
                | Inr (g, parent') \<Rightarrow>
                    if g < 0 \<or> 65535 < g then Inl OverflowError
                    else fill_cells parent' it' cells (data[y := (data ! y)[x := g]]))))"

definition fill_grid ::
  "tile_layer \<Rightarrow> tiled_map \<Rightarrow> gid_iter \<Rightarrow> py_error + (tile_layer \<times> tiled_map)" where
  "fill_grid elem parent next_gid =
     (let data0 = replicate (nat (tl_height elem)) (replicate (nat (tl_width elem)) 0);
          cells = List.product [0..<nat (tl_height elem)] [0..<nat (tl_width elem)]
      in case fill_cells parent next_gid cells data0 of
           Inl e \<Rightarrow> Inl e
         | Inr (data, parent') \<Rightarrow> Inr (elem\<lparr>tl_data := data\<rparr>, parent'))"

text \<open>
  \<^verbatim>\<open>
  elem = cls()
  elem.set_properties(node)
  data = None
  next_gid = None
  data_node = node.find('data')
  ...
  \<close>
  No class of the module defines the attribute \<open>parent\<close> that \<open>elem.parent\<close> reads. It is
  a parameter here: \<open>Some\<close> map when the caller's environment provides one, and None when
  it does not, where \<open>elem.parent\<close> raises AttributeError. \<open>node.find('data')\<close> is None for
  a node without data element, on which \<open>data_node.get\<close> raises AttributeError.
\<close>

definition TileLayer_from_xml ::
  "pylib \<Rightarrow> tiled_map option \<Rightarrow> xml \<Rightarrow> py_error + (tile_layer \<times> tiled_map)" where
  "TileLayer_from_xml lib parent node =
     (case read_properties (lib_float lib) node of
        Inl e \<Rightarrow> Inl e
      | Inr d \<Rightarrow>
          (let elem = TileLayer_init\<lparr>tl_properties := d\<rparr> in
           case find node ''data'' of
             None \<Rightarrow> Inl AttributeError
           | Some data_node \<Rightarrow>
               (case decode_payload lib data_node of
                  Inl e \<Rightarrow> Inl e
                | Inr next_gid \<Rightarrow>
                    (case parent of
                       None \<Rightarrow> Inl AttributeError
                     | Some m \<Rightarrow> fill_grid elem m next_gid))))"

text \<open>
  The number of values an iterator yields before it is exhausted or raises.
\<close>

definition yielded :: "gid_iter \<Rightarrow> nat" where
  "yielded it = (case it of None \<Rightarrow> 0 | Some xs \<Rightarrow> length (takeWhile (\<lambda>x. \<not> isl x) xs))"

text \<open>
  A grid cell holds an allocated GID of a map when it is 0 or a compact GID that the
  map's forward table holds for some pair.
\<close>

definition allocated :: "tiled_map \<Rightarrow> int \<Rightarrow> bool" where
  "allocated m g \<longleftrightarrow> g = 0 \<or> (\<exists>k f. imagemap m k = Some (GidPair g f))"

section \<open>Tilesets (pytmx.py, parse_properties, Tileset.from_xml)\<close>

text \<open>
  \<^verbatim>\<open>
  def parse_properties(node):
      """
      parse a node and return a dict that represents a tiled "property"
      ...
      """
  \<close>
  The body of the function is its docstring alone, so a call returns None.
\<close>

definition parse_properties :: "xml \<Rightarrow> pyobj" where
  "parse_properties node = PyNone"

text \<open>\<open>p[k] = v\<close>: None does not support item assignment (TypeError).\<close>

definition setitem :: "pyobj \<Rightarrow> string \<Rightarrow> propval \<Rightarrow> py_error + pyobj" where
  "setitem p k v =
     (case p of
        PyNone \<Rightarrow> Inl TypeError
      | PyDict d \<Rightarrow> Inr (PyDict (d(Some k \<mapsto> v))))"

text \<open>
  \<^verbatim>\<open>
  for child in node.getiterator('tile'):
      real_gid = int(child.get("id"))
      p = parse_properties(child)
      p['width'] = elem.tilewidth
      p['height'] = elem.tileheight
      for gid, flags in elem.parent.map_gid(real_gid + elem.firstgid):
          elem.parent.set_tile_properties(gid, p)
  \<close>
  \<open>tile_loop\<close> takes the tileset \<open>elem\<close>, the map \<open>elem.parent\<close> (None when the attribute
  is not there: AttributeError) and the tile elements still to visit, and returns the
  map after the loop.
\<close>

fun tile_loop :: "tileset \<Rightarrow> tiled_map option \<Rightarrow> xml list \<Rightarrow> py_error + tiled_map option" where
  "tile_loop elem parent [] = Inr parent"
| "tile_loop elem parent (child # rest) =
     (case int_of_attr (xml_get child ''id'') of
        Inl e \<Rightarrow> Inl e
      | Inr real_gid \<Rightarrow>
          (case setitem (parse_properties child) ''width'' (PInt (ts_tilewidth elem)) of
             Inl e \<Rightarrow> Inl e
           | Inr p1 \<Rightarrow>
               (case setitem p1 ''height'' (PInt (ts_tileheight elem)) of
                  Inl e \<Rightarrow> Inl e
                | Inr p \<Rightarrow>
                    (case parent of
                       None \<Rightarrow> Inl AttributeError
                     | Some m \<Rightarrow>
                         (case map_gid m (real_gid + ts_firstgid elem) of
                            Inl e \<Rightarrow> Inl e
                          | Inr (l, m') \<Rightarrow>
                              tile_loop elem
                                (Some (foldl (\<lambda>s (gid, flags). set_tile_properties s gid p) m' l))
                                rest)))))"

text \<open>
  \<^verbatim>\<open>
  source = node.get('source', None)
  if source:
      if source[-4:].lower() == ".tsx":
          elem.firstgid = int(node.get('firstgid'))
          dirname = os.path.dirname(elem.parent.filename)
          ...
      else:
          raise Exception
  \<close>
  For an external tileset, \<open>elem.parent.filename\<close> raises AttributeError: either \<open>elem\<close>
  has no attribute \<open>parent\<close>, or the parent is a TiledMap, whose constructor sets no
  attribute \<open>filename\<close>. So the branch that reads the external file is never entered.
\<close>

definition external_source :: "tiled_map option \<Rightarrow> xml \<Rightarrow> tileset \<Rightarrow> py_error + tileset" where
  "external_source parent node elem =
     (case xml_get node ''source'' of
        None \<Rightarrow> Inr elem
      | Some source \<Rightarrow>
          if source = [] then Inr elem
          else if py_lower (drop (length source - 4) source) = ''.tsx'' then
            (case int_of_attr (xml_get node ''firstgid'') of
               Inl e \<Rightarrow> Inl e
             | Inr n \<Rightarrow> Inl AttributeError)
          else Inl PyException)"

text \<open>
  \<^verbatim>\<open>
  elem = cls()
  ...
  elem.set_properties(node)
  for child in node.getiterator('tile'): ...
  image_node = node.find('image')
  elem.source = image_node.get('source')
  elem.trans = image_node.get('trans', None)
  elem.width = int(image_node.get('width'))
  elem.height = int(image_node.get('height'))
  return elem
  \<close>
\<close>

definition Tileset_from_xml ::
  "pylib \<Rightarrow> tiled_map option \<Rightarrow> xml \<Rightarrow> py_error + (tileset \<times> tiled_map option)" where
  "Tileset_from_xml lib parent node =
     (case external_source parent node Tileset_init of
        Inl e \<Rightarrow> Inl e
      | Inr elem1 \<Rightarrow>
          (case read_properties (lib_float lib) node of
             Inl e \<Rightarrow> Inl e
           | Inr d \<Rightarrow>
               (let elem2 = elem1\<lparr>ts_properties := d\<rparr> in
                case tile_loop elem2 parent (getiterator node ''tile'') of
                  Inl e \<Rightarrow> Inl e
                | Inr parent' \<Rightarrow>
                    (case find node ''image'' of
                       None \<Rightarrow> Inl AttributeError
                     | Some image_node \<Rightarrow>
                         (case int_of_attr (xml_get image_node ''width'') of
                            Inl e \<Rightarrow> Inl e
                          | Inr w \<Rightarrow>
                              (case int_of_attr (xml_get image_node ''height'') of
                                 Inl e \<Rightarrow> Inl e
                               | Inr h \<Rightarrow>
                                   Inr (elem2\<lparr>ts_source := xml_get image_node ''source'',
                                              ts_trans := xml_get image_node ''trans'',
                                              ts_width := w, ts_height := h\<rparr>,
                                        parent')))))))"

section \<open>Image layers and object groups (pytmx.py)\<close>

text \<open>
  \<^verbatim>\<open>
  elem = cls()
  elem.set_properties(node)
  elem.name = node.get('name', None)
  elem.opacity = node.get('opacity', elem.opacity)
  elem.visible = node.get('visible', elem.visible)
  image_node = node.find('image')
  elem.source = image_node.get('source')
  elem.trans = image_node.get('trans', None)
  return elem
  \<close>
\<close>

definition ImageLayer_from_xml :: "pylib \<Rightarrow> xml \<Rightarrow> py_error + image_layer" where
  "ImageLayer_from_xml lib node =
     (case read_properties (lib_float lib) node of
        Inl e \<Rightarrow> Inl e
      | Inr d \<Rightarrow>
          (let elem = ImageLayer_init\<lparr>il_properties := d, il_name := xml_get node ''name''\<rparr>;
               elem1 = elem\<lparr>il_opacity :=
                 (case xml_get node ''opacity'' of None \<Rightarrow> il_opacity elem | Some s \<Rightarrow> Inr s)\<rparr>;
               elem2 = elem1\<lparr>il_visible :=
                 (case xml_get node ''visible'' of None \<Rightarrow> il_visible elem1 | Some s \<Rightarrow> Inr s)\<rparr>
           in case find node ''image'' of
                None \<Rightarrow> Inl AttributeError
              | Some image_node \<Rightarrow>
                  Inr (elem2\<lparr>il_source := xml_get image_node ''source'',
                             il_trans := xml_get image_node ''trans''\<rparr>)))"

text \<open>
  \<^verbatim>\<open>
  elem = cls()
  elem.set_properties(node)
  for child in node.findall('object'):
      o = Object(elem.parent, child)
      elem.append(o)
  return elem
  \<close>
  \<open>Object.__init__\<close> takes no argument besides \<open>self\<close>, so the call with two raises
  TypeError, once its argument \<open>elem.parent\<close> is evaluated.
\<close>

definition ObjectGroup_from_xml ::
  "pylib \<Rightarrow> tiled_map option \<Rightarrow> xml \<Rightarrow> py_error + object_group" where
  "ObjectGroup_from_xml lib parent node =
     (case read_properties (lib_float lib) node of
        Inl e \<Rightarrow> Inl e
      | Inr d \<Rightarrow>
          (let elem = ObjectGroup_init\<lparr>og_properties := d\<rparr> in
           case findall node ''object'' of
             [] \<Rightarrow> Inr elem
           | child # rest \<Rightarrow>
               (case parent of None \<Rightarrow> Inl AttributeError | Some m \<Rightarrow> Inl TypeError)))"

section \<open>Maps (pytmx.py, TiledMap.from_xml, TiledElement.from_string)\<close>

text \<open>
  \<^verbatim>\<open>
  def add_layer(self, layer):
      assert (isinstance(layer, (TileLayer, ImageLayer, ObjectGroup)))
      self.layers.append(layer)
      self.layernames[layer.name] = layer

  def add_tileset(self, tileset):
      assert (isinstance(tileset, Tileset))
      self.tilesets.append(tileset)
  \<close>
  \<open>self.layers\<close> is an OrderedDict, which has no method \<open>append\<close>: AttributeError.
\<close>

definition add_layer :: "tiled_map \<Rightarrow> layer \<Rightarrow> py_error + tiled_map" where
  "add_layer self l = Inl AttributeError"

definition add_tileset :: "tiled_map \<Rightarrow> tileset \<Rightarrow> tiled_map" where
  "add_tileset self ts = self\<lparr>tilesets := tilesets self @ [ts]\<rparr>"

text \<open>
  \<^verbatim>\<open>
  def get_tile_properties_by_gid(self, gid):
      try:
          return self.tile_properties[gid]
      except KeyError:
          return None
  \<close>
\<close>

definition get_tile_properties_by_gid :: "tiled_map \<Rightarrow> int \<Rightarrow> pyobj" where
  "get_tile_properties_by_gid self gid =
     (case tile_properties self gid of None \<Rightarrow> PyNone | Some p \<Rightarrow> p)"

text \<open>
  The loops \<open>for subnode in node.findall(...): elem.add_layer(X.from_xml(subnode))\<close> and
  the one over the tilesets, for a parser \<open>from_xml\<close> of the subnodes.
\<close>

fun add_layers :: "(xml \<Rightarrow> py_error + layer) \<Rightarrow> tiled_map \<Rightarrow> xml list \<Rightarrow> py_error + tiled_map" where
  "add_layers from_xml elem [] = Inr elem"
| "add_layers from_xml elem (subnode # rest) =
     (case from_xml subnode of
        Inl e \<Rightarrow> Inl e
      | Inr l \<Rightarrow>
          (case add_layer elem l of
             Inl e \<Rightarrow> Inl e
           | Inr elem' \<Rightarrow> add_layers from_xml elem' rest))"

fun add_tilesets :: "(xml \<Rightarrow> py_error + tileset) \<Rightarrow> tiled_map \<Rightarrow> xml list \<Rightarrow> py_error + tiled_map" where
  "add_tilesets from_xml elem [] = Inr elem"
| "add_tilesets from_xml elem (subnode # rest) =
     (case from_xml subnode of
        Inl e \<Rightarrow> Inl e
      | Inr ts \<Rightarrow> add_tilesets from_xml (add_tileset elem ts) rest)"

text \<open>
  \<^verbatim>\<open>
  for o in elem.objects:
      p = elem.get_tile_properties_by_gid(o.gid)
      if p:
          o.properties.update(p)
  \<close>
  \<open>elem.objects\<close> chains the object groups among the layers. None and the empty
  dictionary are false.
\<close>

definition update_object :: "tiled_map \<Rightarrow> tiled_object \<Rightarrow> tiled_object" where
  "update_object elem ob =
     (case get_tile_properties_by_gid elem (ob_gid ob) of
        PyNone \<Rightarrow> ob
      | PyDict p \<Rightarrow> if p = Map.empty then ob else ob\<lparr>ob_properties := ob_properties ob ++ p\<rparr>)"

definition update_objects :: "tiled_map \<Rightarrow> tiled_map" where
  "update_objects elem =
     elem\<lparr>layers :=
       map (\<lambda>l. case l of
                   ObjectGroupL g \<Rightarrow> ObjectGroupL (g\<lparr>og_objects := map (update_object elem) (og_objects g)\<rparr>)
                 | _ \<Rightarrow> l)
           (layers elem)\<rparr>"

text \<open>
  \<^verbatim>\<open>
  @classmethod
  def from_xml(cls, node):
      elem = cls()
      elem.set_properties(node)
      elem.background_color = node.get('backgroundcolor', elem.background_color)
      for subnode in node.findall('layer'):
          elem.add_layer(TileLayer.from_xml(subnode))
      for subnode in node.findall('imagelayer'):
          elem.add_layer(ImageLayer.from_xml(subnode))
      for subnode in node.findall('objectgroup'):
          elem.add_layer(ObjectGroup.from_xml(subnode))
      for subnode in node.findall('tileset'):
          elem.add_tileset(Tileset.from_xml(subnode))
      for o in elem.objects: ...
      return elem
  \<close>
  Nothing in the module gives the elements that the subnode parsers create an attribute
  \<open>parent\<close>, so they run with None for it.
\<close>

definition TiledMap_from_xml :: "pylib \<Rightarrow> xml \<Rightarrow> py_error + tiled_map" where
  "TiledMap_from_xml lib node =
     (case read_properties (lib_float lib) node of
        Inl e \<Rightarrow> Inl e
      | Inr d \<Rightarrow>
          (let elem = TiledMap_init\<lparr>properties := d\<rparr>;
               elem0 = elem\<lparr>background_color :=
                 (case xml_get node ''backgroundcolor'' of
                    None \<Rightarrow> background_color elem
                  | Some c \<Rightarrow> Some c)\<rparr>
           in case add_layers
                     (\<lambda>n. case TileLayer_from_xml lib None n of
                             Inl e \<Rightarrow> Inl e
                           | Inr (l, m) \<Rightarrow> Inr (TileLayerL l))
                     elem0 (findall node ''layer'') of
                Inl e \<Rightarrow> Inl e
              | Inr elem1 \<Rightarrow>
                  (case add_layers
                          (\<lambda>n. case ImageLayer_from_xml lib n of
                                  Inl e \<Rightarrow> Inl e
                                | Inr l \<Rightarrow> Inr (ImageLayerL l))
                          elem1 (findall node ''imagelayer'') of
                     Inl e \<Rightarrow> Inl e
                   | Inr elem2 \<Rightarrow>
                       (case add_layers
                               (\<lambda>n. case ObjectGroup_from_xml lib None n of
                                       Inl e \<Rightarrow> Inl e
                                     | Inr g \<Rightarrow> Inr (ObjectGroupL g))
                               elem2 (findall node ''objectgroup'') of
                          Inl e \<Rightarrow> Inl e
                        | Inr elem3 \<Rightarrow>
                            (case add_tilesets
                                    (\<lambda>n. case Tileset_from_xml lib None n of
                                            Inl e \<Rightarrow> Inl e
                                          | Inr (ts, m) \<Rightarrow> Inr ts)
                                    elem3 (findall node ''tileset'') of
                               Inl e \<Rightarrow> Inl e
                             | Inr elem4 \<Rightarrow> Inr (update_objects elem4))))))"

text \<open>
  \<^verbatim>\<open>
  @classmethod
  def from_string(cls, xml_string):
      new = cls()
      node = ElementTree.fromstring(xml_string)
      new.from_xml(node)
      return new
  \<close>
  \<open>from_string\<close> is inherited by every element class: \<open>new\<close> is the value of \<open>cls()\<close>,
  \<open>from_xml\<close> is the class method \<open>cls.from_xml\<close> (called through the instance \<open>new\<close>, it
  still receives the class and the node only), and \<open>fromstring\<close> the XML parser. The value
  that \<open>from_xml\<close> returns is dropped.
\<close>

definition from_string ::
  "'a \<Rightarrow> (xml \<Rightarrow> py_error + 'b) \<Rightarrow> (string \<Rightarrow> py_error + xml) \<Rightarrow> string \<Rightarrow> py_error + 'a" where
  "from_string new from_xml fromstring xml_string =
     (case fromstring xml_string of
        Inl e \<Rightarrow> Inl e
      | Inr node \<Rightarrow>
          (case from_xml node of
             Inl e \<Rightarrow> Inl e
           | Inr r \<Rightarrow> Inr new))"

definition TiledMap_from_string :: "pylib \<Rightarrow> string \<Rightarrow> py_error + tiled_map" where
  "TiledMap_from_string lib xml_string =
     from_string TiledMap_init (TiledMap_from_xml lib) (lib_fromstring lib) xml_string"

section \<open>Proofs: GID codec\<close>

lemma and_pow_eq: "(x::int) AND 2 ^ n = 2 ^ n \<longleftrightarrow> bit x n"
proof
  assume "x AND 2 ^ n = 2 ^ n"
  then have "bit (x AND 2 ^ n) n = bit ((2::int) ^ n) n" by simp
  then show "bit x n" by (simp add: bit_simps)
next
  assume "bit x n"
  then show "x AND 2 ^ n = 2 ^ n"
    by (intro bit_eqI) (auto simp: bit_simps)
qed

lemma seven_mask: "(7::int) = mask 3"
  by (simp add: mask_eq_exp_minus_1)

lemma bit_flag_mask: "bit (push_bit 29 (7::int)) n \<longleftrightarrow> 29 \<le> n \<and> n < 32"
  unfolding seven_mask by (auto simp: bit_simps)

lemma bit_flag_mask_num: "bit (3758096384::int) n \<longleftrightarrow> 29 \<le> n \<and> n < 32"
proof -
  have "(3758096384::int) = push_bit 29 7" by simp
  then show ?thesis by (simp only: bit_flag_mask)
qed

lemma bit_pow_num:
  "bit (2147483648::int) n \<longleftrightarrow> n = 31"
  "bit (1073741824::int) n \<longleftrightarrow> n = 30"
  "bit (536870912::int) n \<longleftrightarrow> n = 29"
proof -
  have "(2147483648::int) = 2 ^ 31" "(1073741824::int) = 2 ^ 30" "(536870912::int) = 2 ^ 29"
    by simp_all
  then show "bit (2147483648::int) n \<longleftrightarrow> n = 31"
  "bit (1073741824::int) n \<longleftrightarrow> n = 30"
  "bit (536870912::int) n \<longleftrightarrow> n = 29"
    by (simp_all only: bit_exp_iff) auto
qed

lemma mask_or: "GID_TRANS_FLIPX OR GID_TRANS_FLIPY OR GID_TRANS_ROT = push_bit 29 (7::int)"
  by (simp add: GID_TRANS_FLIPX_def GID_TRANS_FLIPY_def GID_TRANS_ROT_def)

lemma decode_gid_bits:
  "decode_gid raw = (raw AND NOT (push_bit 29 7),
     (if bit raw 31 then 1 else 0) + (if bit raw 30 then 2 else 0) + (if bit raw 29 then 4 else 0))"
  unfolding decode_gid_def Let_def mask_or GID_TRANS_FLIPX_def GID_TRANS_FLIPY_def GID_TRANS_ROT_def and_pow_eq
  by (simp add: TRANS_FLIPX_def TRANS_FLIPY_def TRANS_ROT_def)

lemma bit_high_32:
  fixes raw :: int
  assumes "0 \<le> raw" "raw < 2 ^ 32" "32 \<le> n"
  shows "\<not> bit raw n"
proof -
  have "raw < 2 ^ n" using assms(2,3)
    by (meson less_le_trans power_increasing one_le_numeral)
  then show ?thesis using assms(1) by (simp add: bit_iff_odd)
qed

lemma base_mod:
  fixes raw :: int
  assumes "0 \<le> raw" "raw < 2 ^ 32"
  shows "raw AND NOT (push_bit 29 7) = raw mod 2 ^ 29"
proof -
  have "raw AND NOT (push_bit 29 7) = take_bit 29 raw"
  proof (rule bit_eqI)
    fix n
    show "bit (raw AND NOT (push_bit 29 7)) n = bit (take_bit 29 raw) n"
      using bit_high_32 [OF assms, of n]
      by (cases "n < 32") (auto simp: bit_simps bit_flag_mask_num bit_pow_num)
  qed
  then show ?thesis by (simp add: take_bit_eq_mod)
qed

lemma flags_bits: 
  "((if a then 1 else 0) + (if b then 2 else 0) + (if c then 4 else 0) :: int) AND 1 = 1 \<longleftrightarrow> a"
  "((if a then 1 else 0) + (if b then 2 else 0) + (if c then 4 else 0) :: int) AND 2 = 2 \<longleftrightarrow> b"
  "((if a then 1 else 0) + (if b then 2 else 0) + (if c then 4 else 0) :: int) AND 4 = 4 \<longleftrightarrow> c"
  by auto

lemma encode_decode: 
  fixes raw :: int
  assumes "0 \<le> raw" "raw < 2 ^ 32"
  shows "encode_gid_spec (decode_gid raw) = raw"
proof -
  have "encode_gid_spec (decode_gid raw) =
    (raw AND NOT (push_bit 29 7)) OR (if bit raw 31 then 2 ^ 31 else 0) OR (if bit raw 30 then 2 ^ 30 else 0)
      OR (if bit raw 29 then 2 ^ 29 else 0)"
    unfolding decode_gid_bits encode_gid_spec_def prod.case TRANS_FLIPX_def TRANS_FLIPY_def TRANS_ROT_def flags_bits
      GID_TRANS_FLIPX_def GID_TRANS_FLIPY_def GID_TRANS_ROT_def ..
  also have "\<dots> = raw"
  proof (rule bit_eqI)
    fix n
    show "bit ((raw AND NOT (push_bit 29 7)) OR (if bit raw 31 then 2 ^ 31 else 0) OR (if bit raw 30 then 2 ^ 30 else 0)
      OR (if bit raw 29 then 2 ^ 29 else 0)) n = bit raw n"
    proof -
      consider "n < 29" | "n = 29" | "n = 30" | "n = 31" | "32 \<le> n" by linarith
      then show ?thesis
        using bit_high_32 [OF assms, of n]
        by cases (auto simp: bit_simps bit_flag_mask_num bit_pow_num)
    qed
  qed
  finally show ?thesis .
qed


lemma decode_gid_32:
  fixes raw :: int
  assumes "0 \<le> raw" "raw < 2 ^ 32"
  shows "decode_gid raw = (raw mod 2 ^ 29,
     (if bit raw 31 then 1 else 0) + (if bit raw 30 then 2 else 0) + (if bit raw 29 then 4 else 0))"
  by (simp only: decode_gid_bits base_mod [OF assms])

lemma decode_gid_range:
  fixes raw :: int
  assumes "0 \<le> raw" "raw < 2 ^ 32"
  shows "decode_gid raw \<in> {0..<2 ^ 29} \<times> {0..7}"
  by (simp add: decode_gid_32 [OF assms])

lemma decode_gid_inj: "inj_on decode_gid {0..<2 ^ 32}"
proof (rule inj_on_inverseI)
  fix raw :: int
  assume "raw \<in> {0..<2 ^ 32}"
  then show "encode_gid_spec (decode_gid raw) = raw"
    by (simp add: encode_decode)
qed

lemma decode_gid_bij: "bij_betw decode_gid {0..<2 ^ 32} ({0..<2 ^ 29} \<times> {0..7})"
proof -
  let ?A = "{0..<2 ^ 32} :: int set"
  let ?B = "({0..<2 ^ 29} \<times> {0..7}) :: (int \<times> int) set"
  have sub: "decode_gid ` ?A \<subseteq> ?B"
  proof (rule image_subsetI)
    fix x :: int
    assume "x \<in> ?A"
    then have "0 \<le> x" "x < 2 ^ 32" by simp_all
    then show "decode_gid x \<in> ?B" by (rule decode_gid_range)
  qed
  have "card (decode_gid ` ?A) = card ?A"
    by (rule card_image [OF decode_gid_inj])
  also have "\<dots> = card ?B"
    by (simp add: card_cartesian_product)
  finally have "decode_gid ` ?A = ?B"
    using sub by (intro card_subset_eq) auto
  then show ?thesis
    using decode_gid_inj by (simp add: bij_betw_def)
qed

text \<open>
  Claim C2. For every 32-bit raw GID, \<open>decode_gid\<close> returns the raw value with the three
  flag bits masked off (its low 29 bits) and the sum of the flag values 1, 2 and 4 of
  the bits 31, 30 and 29 that are set; putting the flags back at their bit positions
  gives the raw GID again; \<open>decode_gid\<close> is a bijection between the 32-bit raw GIDs and
  the pairs of a 29-bit base GID and a flag sum in \<open>0..7\<close>. Raw GID 0 decodes to
  \<open>(0, 0)\<close> and \<open>0x80000007\<close> to base GID 7 with the flag FLIP_X.
\<close>

theorem decode_gid_codec:
  "(0 \<le> raw \<and> raw < 2 ^ 32 \<longrightarrow>
      decode_gid raw =
        (raw AND NOT (GID_TRANS_FLIPX OR GID_TRANS_FLIPY OR GID_TRANS_ROT),
         (if bit raw 31 then TRANS_FLIPX else 0) + (if bit raw 30 then TRANS_FLIPY else 0)
           + (if bit raw 29 then TRANS_ROT else 0)) \<and>
      fst (decode_gid raw) = raw mod 2 ^ 29 \<and>
      encode_gid_spec (decode_gid raw) = raw) \<and>
   bij_betw decode_gid {0..<2 ^ 32} ({0..<2 ^ 29} \<times> {0..7}) \<and>
   decode_gid 0 = (0, 0) \<and>
   decode_gid 0x80000007 = (7, TRANS_FLIPX)"
proof -
  have gen: "decode_gid raw =
        (raw AND NOT (GID_TRANS_FLIPX OR GID_TRANS_FLIPY OR GID_TRANS_ROT),
         (if bit raw 31 then TRANS_FLIPX else 0) + (if bit raw 30 then TRANS_FLIPY else 0)
           + (if bit raw 29 then TRANS_ROT else 0))"
    by (simp only: decode_gid_bits mask_or TRANS_FLIPX_def TRANS_FLIPY_def TRANS_ROT_def)
  have A: "0 \<le> raw \<and> raw < 2 ^ 32 \<longrightarrow>
      decode_gid raw =
        (raw AND NOT (GID_TRANS_FLIPX OR GID_TRANS_FLIPY OR GID_TRANS_ROT),
         (if bit raw 31 then TRANS_FLIPX else 0) + (if bit raw 30 then TRANS_FLIPY else 0)
           + (if bit raw 29 then TRANS_ROT else 0)) \<and>
      fst (decode_gid raw) = raw mod 2 ^ 29 \<and>
      encode_gid_spec (decode_gid raw) = raw"
  proof (intro impI conjI)
    assume h: "0 \<le> raw \<and> raw < 2 ^ 32"
    then have h1: "0 \<le> raw" and h2: "raw < 2 ^ 32" by blast+
    show "decode_gid raw =
        (raw AND NOT (GID_TRANS_FLIPX OR GID_TRANS_FLIPY OR GID_TRANS_ROT),
         (if bit raw 31 then TRANS_FLIPX else 0) + (if bit raw 30 then TRANS_FLIPY else 0)
           + (if bit raw 29 then TRANS_ROT else 0))"
      by (rule gen)
    show "fst (decode_gid raw) = raw mod 2 ^ 29"
      by (simp only: decode_gid_32 [OF h1 h2] fst_conv)
    show "encode_gid_spec (decode_gid raw) = raw"
      by (rule encode_decode [OF h1 h2])
  qed
  have ex0: "decode_gid 0 = (0, 0)"
    by (simp add: decode_gid_32)
  have ex7: "decode_gid 0x80000007 = (7, TRANS_FLIPX)"
    by (simp add: decode_gid_32 TRANS_FLIPX_def bit_iff_odd)
  show ?thesis
    by (rule conjI [OF A conjI [OF decode_gid_bij conjI [OF ex0 ex7]]])
qed

theorem decode_gid_codec_witness:
  "decode_gid 0xC000000D = (13, 3) \<and>
   encode_gid_spec (decode_gid 0xC000000D) = 0xC000000D"
proof -
  have h: "(0::int) \<le> 0xC000000D \<and> (0xC000000D::int) < 2 ^ 32" by simp
  from decode_gid_codec [of "0xC000000D"] h
  have "fst (decode_gid 0xC000000D) = 0xC000000D mod 2 ^ 29"
    and "decode_gid 0xC000000D =
        (0xC000000D AND NOT (GID_TRANS_FLIPX OR GID_TRANS_FLIPY OR GID_TRANS_ROT),
         (if bit (0xC000000D::int) 31 then TRANS_FLIPX else 0) + (if bit (0xC000000D::int) 30 then TRANS_FLIPY else 0)
           + (if bit (0xC000000D::int) 29 then TRANS_ROT else 0))"
    and "encode_gid_spec (decode_gid 0xC000000D) = 0xC000000D"
    by blast+
  then show ?thesis
    by (simp add: TRANS_FLIPX_def TRANS_FLIPY_def TRANS_ROT_def bit_iff_odd prod_eq_iff)
qed

section \<open>Proofs: GID registry\<close>

lemma registry_inv_init: "registry_inv TiledMap_init []"
  by (simp add: registry_inv_def TiledMap_init_def defaultdict_getitem_def)

lemma pos_less: "x \<in> set D \<Longrightarrow> pos D x < length D"
  by (induction D) auto

lemma pos_nth: "x \<in> set D \<Longrightarrow> D ! pos D x = x"
  by (induction D) auto

lemma pos_append_in: "x \<in> set D \<Longrightarrow> pos (D @ E) x = pos D x"
  by (induction D) auto

lemma pos_append_new: "x \<notin> set D \<Longrightarrow> pos (D @ [x]) x = length D"
  by (induction D) auto

lemma pos_inj: "x \<in> set D \<Longrightarrow> y \<in> set D \<Longrightarrow> pos D x = pos D y \<Longrightarrow> x = y"
  by (metis pos_nth)

lemma origins_from_append:
  "origins_from k (D @ [p]) b =
     origins_from k D b @ (if fst p = b then [(1 + int (k + length D), snd p)] else [])"
  by (induction D arbitrary: k) auto

lemma defaultdict_getitem_fst:
  "fst (defaultdict_getitem d k) = (case d k of None \<Rightarrow> [] | Some v \<Rightarrow> v)"
  by (simp add: defaultdict_getitem_def split: option.splits)

lemma defaultdict_getitem_snd:
  "(case snd (defaultdict_getitem d k) k' of None \<Rightarrow> [] | Some v \<Rightarrow> v) =
   (case d k' of None \<Rightarrow> [] | Some v \<Rightarrow> v)"
  by (auto simp: defaultdict_getitem_def split: option.splits)

lemma register_gid_zero_inv: "register_gid self 0 f = Inr (0, self)"
  by (simp add: register_gid_def)

lemma register_gid_hit:
  assumes "registry_inv self D" "b \<noteq> 0" "(b, f) \<in> set D"
  shows "register_gid self b f = Inr (1 + int (pos D (b, f)), self)"
  using assms by (simp add: register_gid_def registry_inv_def)

lemma register_gid_miss:
  assumes "registry_inv self D" "b \<noteq> 0" "(b, f) \<notin> set D"
  shows "\<exists>self'. register_gid self b f = Inr (1 + int (length D), self') \<and>
           registry_inv self' (D @ [(b, f)])"
proof -
  obtain l d where ld: "defaultdict_getitem (gidmap self) b = (l, d)" by force
  let ?s = "self\<lparr>maxgid := maxgid self + 1,
      imagemap := (imagemap self)((b, f) \<mapsto> GidPair (maxgid self) f),
      gidmap := d(b \<mapsto> l @ [(maxgid self, f)])\<rparr>"
  from assms have none: "imagemap self (b, f) = None"
    and mg: "maxgid self = 1 + int (length D)"
    and im: "\<And>b' f'. b' \<noteq> 0 \<Longrightarrow> imagemap self (b', f') =
          (if (b', f') \<in> set D then Some (GidPair (1 + int (pos D (b', f'))) f') else None)"
    and gm: "\<And>b'. fst (defaultdict_getitem (gidmap self) b') = origins_from 0 D b'"
    and dist: "distinct D" and nz: "\<forall>p \<in> set D. fst p \<noteq> 0"
    by (simp_all add: registry_inv_def)
  have r: "register_gid self b f = Inr (1 + int (length D), ?s)"
    using assms(2) none ld mg by (simp add: register_gid_def Let_def)
  have l: "l = origins_from 0 D b" using gm [of b] ld by simp
  have d: "(case d b' of None \<Rightarrow> [] | Some v \<Rightarrow> v) = origins_from 0 D b'" for b'
    using gm [of b'] defaultdict_getitem_snd [of "gidmap self" b b'] ld
    by (simp add: defaultdict_getitem_fst)
  have "registry_inv ?s (D @ [(b, f)])"
    unfolding registry_inv_def
  proof (intro conjI allI impI)
    show "distinct (D @ [(b, f)])" using dist assms(3) by simp
    show "\<forall>p\<in>set (D @ [(b, f)]). fst p \<noteq> 0" using nz assms(2) by auto
    show "maxgid ?s = 1 + int (length (D @ [(b, f)]))" using mg by simp
  next
    fix b' f' assume "b' \<noteq> (0::int)"
    then show "imagemap ?s (b', f') =
       (if (b', f') \<in> set (D @ [(b, f)])
        then Some (GidPair (1 + int (pos (D @ [(b, f)]) (b', f'))) f') else None)"
      using im [of b' f'] assms(3) mg
      by (auto simp: pos_append_in pos_append_new)
  next
    fix b'
    show "fst (defaultdict_getitem (gidmap ?s) b') = origins_from 0 (D @ [(b, f)]) b'"
      using d [of b'] l mg
      by (auto simp: defaultdict_getitem_fst origins_from_append)
  qed
  with r show ?thesis by blast
qed

lemma map_gid_inv:
  assumes "registry_inv self D"
  shows "\<exists>self'. map_gid self b = Inr (origins_from 0 D b, self') \<and> registry_inv self' D"
proof -
  obtain l d where ld: "defaultdict_getitem (gidmap self) b = (l, d)" by force
  from assms have gm: "\<And>b'. fst (defaultdict_getitem (gidmap self) b') = origins_from 0 D b'"
    by (simp add: registry_inv_def)
  have l: "l = origins_from 0 D b" using gm [of b] ld by simp
  have d: "fst (defaultdict_getitem d b') = fst (defaultdict_getitem (gidmap self) b')" for b'
    using defaultdict_getitem_snd [of "gidmap self" b b'] ld
    by (simp add: defaultdict_getitem_fst)
  have "registry_inv (self\<lparr>gidmap := d\<rparr>) D"
    using assms by (simp add: registry_inv_def d)
  then show ?thesis using ld l by (simp add: map_gid_def)
qed


lemma first_seen_prefix: "\<exists>E. first_seen D cs = D @ E"
proof (induction cs arbitrary: D)
  case Nil
  show ?case by simp
next
  case (Cons c cs)
  show ?case
  proof (cases c)
    case (Register b f)
    from Cons [of "if b \<noteq> 0 \<and> (b, f) \<notin> set D then D @ [(b, f)] else D"]
    show ?thesis using Register by (auto split: if_splits)
  next
    case (Lookup b)
    with Cons [of D] show ?thesis by simp
  qed
qed

lemma first_seen_set:
  "set (first_seen D cs) = set D \<union> {(b, f). Register b f \<in> set cs \<and> b \<noteq> 0}"
proof (induction cs arbitrary: D)
  case Nil
  show ?case by simp
next
  case (Cons c cs)
  show ?case
  proof (cases c)
    case (Register b f)
    then show ?thesis
      using Cons [of "if b \<noteq> 0 \<and> (b, f) \<notin> set D then D @ [(b, f)] else D"]
      by (auto split: if_splits)
  next
    case (Lookup b)
    then show ?thesis using Cons [of D] by auto
  qed
qed

lemma first_seen_distinct: "distinct D \<Longrightarrow> distinct (first_seen D cs)"
proof (induction cs arbitrary: D)
  case Nil
  then show ?case by simp
next
  case (Cons c cs)
  show ?case
  proof (cases c)
    case (Register b f)
    then show ?thesis
      using Cons.IH [of "if b \<noteq> 0 \<and> (b, f) \<notin> set D then D @ [(b, f)] else D"] Cons.prems
      by (auto split: if_splits)
  next
    case (Lookup b)
    then show ?thesis using Cons.IH [of D] Cons.prems by auto
  qed
qed

lemma pos_first_seen: "p \<in> set D \<Longrightarrow> pos (first_seen D cs) p = pos D p"
  using first_seen_prefix [of D cs] by (auto simp: pos_append_in)

lemma register_gid_step:
  assumes "registry_inv self D"
  shows "\<exists>self'. register_gid self b f =
            Inr (if b = 0 then 0
                 else 1 + int (pos (if (b, f) \<notin> set D then D @ [(b, f)] else D) (b, f)), self') \<and>
           registry_inv self' (if b \<noteq> 0 \<and> (b, f) \<notin> set D then D @ [(b, f)] else D)"
proof (cases "b = 0")
  case True
  then show ?thesis using assms by (simp add: register_gid_zero_inv)
next
  case False
  show ?thesis
  proof (cases "(b, f) \<in> set D")
    case True
    then show ?thesis using False assms register_gid_hit [OF assms False True] by simp
  next
    case nin: False
    then show ?thesis using False register_gid_miss [OF assms False nin]
      by (simp add: pos_append_new)
  qed
qed

lemma run_calls_spec:
  assumes "registry_inv self D" "run_calls self cs = (os, s)"
  shows "registry_inv s (first_seen D cs) \<and> length os = length cs \<and>
     (\<forall>i<length cs. os ! i =
        (case cs ! i of
           Register b f \<Rightarrow> Gid (if b = 0 then 0 else 1 + int (pos (first_seen D cs) (b, f)))
         | Lookup b \<Rightarrow> Origins (origins_from 0 (first_seen D (take i cs)) b)))"
  using assms
proof (induction cs arbitrary: self D os)
  case Nil
  then show ?case by simp
next
  case (Cons c cs)
  show ?case
  proof (cases c)
    case (Register b f)
    let ?D = "if b \<noteq> 0 \<and> (b, f) \<notin> set D then D @ [(b, f)] else D"
    from register_gid_step [OF Cons.prems(1), of b f]
    obtain self' g where r: "register_gid self b f = Inr (g, self')"
      and g: "g = (if b = 0 then 0
                 else 1 + int (pos (if (b, f) \<notin> set D then D @ [(b, f)] else D) (b, f)))"
      and inv': "registry_inv self' ?D"
      by blast
    obtain os' where run': "run_calls self' cs = (os', s)" and os: "os = Gid g # os'"
      using Cons.prems(2) Register r by (auto split: prod.splits)
    note IH = Cons.IH [OF inv' run']
    have fs: "first_seen D (c # cs) = first_seen ?D cs" using Register by simp
    have g': "b \<noteq> 0 \<Longrightarrow> g = 1 + int (pos (first_seen ?D cs) (b, f))"
    proof -
      assume nz: "b \<noteq> 0"
      then have "(b, f) \<in> set ?D" by auto
      then have "pos (first_seen ?D cs) (b, f) = pos ?D (b, f)" by (rule pos_first_seen)
      then show ?thesis using g nz by auto
    qed
    have "\<forall>i<length (c # cs). os ! i =
        (case (c # cs) ! i of
           Register b f \<Rightarrow> Gid (if b = 0 then 0 else 1 + int (pos (first_seen D (c # cs)) (b, f)))
         | Lookup b \<Rightarrow> Origins (origins_from 0 (first_seen D (take i (c # cs))) b))"
    proof (intro allI impI)
      fix i assume i: "i < length (c # cs)"
      show "os ! i =
        (case (c # cs) ! i of
           Register b f \<Rightarrow> Gid (if b = 0 then 0 else 1 + int (pos (first_seen D (c # cs)) (b, f)))
         | Lookup b \<Rightarrow> Origins (origins_from 0 (first_seen D (take i (c # cs))) b))"
      proof (cases i)
        case 0
        then show ?thesis using os Register g g' fs by auto
      next
        case (Suc j)
        then have "j < length cs" using i by simp
        with IH have "os' ! j =
          (case cs ! j of
             Register b f \<Rightarrow> Gid (if b = 0 then 0 else 1 + int (pos (first_seen ?D cs) (b, f)))
           | Lookup b \<Rightarrow> Origins (origins_from 0 (first_seen ?D (take j cs)) b))"
          by blast
        then show ?thesis using Suc os Register by (simp only: fs nth_Cons_Suc take_Suc_Cons first_seen.simps)
      qed
    qed
    then show ?thesis using IH os fs by simp
  next
    case (Lookup b)
    from map_gid_inv [OF Cons.prems(1), of b]
    obtain self' where r: "map_gid self b = Inr (origins_from 0 D b, self')"
      and inv': "registry_inv self' D"
      by blast
    obtain os' where run': "run_calls self' cs = (os', s)"
      and os: "os = Origins (origins_from 0 D b) # os'"
      using Cons.prems(2) Lookup r by (auto split: prod.splits)
    note IH = Cons.IH [OF inv' run']
    have fs: "first_seen D (c # cs) = first_seen D cs" using Lookup by simp
    have "\<forall>i<length (c # cs). os ! i =
        (case (c # cs) ! i of
           Register b f \<Rightarrow> Gid (if b = 0 then 0 else 1 + int (pos (first_seen D (c # cs)) (b, f)))
         | Lookup b \<Rightarrow> Origins (origins_from 0 (first_seen D (take i (c # cs))) b))"
    proof (intro allI impI)
      fix i assume i: "i < length (c # cs)"
      show "os ! i =
        (case (c # cs) ! i of
           Register b f \<Rightarrow> Gid (if b = 0 then 0 else 1 + int (pos (first_seen D (c # cs)) (b, f)))
         | Lookup b \<Rightarrow> Origins (origins_from 0 (first_seen D (take i (c # cs))) b))"
      proof (cases i)
        case 0
        then show ?thesis using os Lookup by simp
      next
        case (Suc j)
        then have "j < length cs" using i by simp
        with IH have "os' ! j =
          (case cs ! j of
             Register b f \<Rightarrow> Gid (if b = 0 then 0 else 1 + int (pos (first_seen D cs) (b, f)))
           | Lookup b \<Rightarrow> Origins (origins_from 0 (first_seen D (take j cs)) b))"
          by blast
        then show ?thesis using Suc os Lookup by (simp only: fs nth_Cons_Suc take_Suc_Cons first_seen.simps)
      qed
    qed
    then show ?thesis using IH os fs by simp
  qed
qed


lemma origins_from_set:
  "distinct D \<Longrightarrow>
   set (origins_from k D b) = (\<lambda>f. (1 + int (k + pos D (b, f)), f)) ` {f. (b, f) \<in> set D}"
proof (induction D arbitrary: k)
  case Nil
  show ?case by simp
next
  case (Cons p D)
  then have IH: "set (origins_from (Suc k) D b) =
      (\<lambda>f. (1 + int (Suc k + pos D (b, f)), f)) ` {f. (b, f) \<in> set D}"
    by simp
  have ne: "(b, f) \<in> set D \<Longrightarrow> (b, f) \<noteq> p" for f using Cons.prems by auto
  have "(\<lambda>f. (1 + int (Suc k + pos D (b, f)), f)) ` {f. (b, f) \<in> set D} =
        (\<lambda>f. (1 + int (k + pos (p # D) (b, f)), f)) ` {f. (b, f) \<in> set D}"
    using ne by (intro image_cong) auto
  with IH have IH': "set (origins_from (Suc k) D b) =
      (\<lambda>f. (1 + int (k + pos (p # D) (b, f)), f)) ` {f. (b, f) \<in> set D}"
    by simp
  show ?case
  proof (cases "fst p = b")
    case True
    then have p: "p = (b, snd p)" by (cases p) simp
    have "{f. (b, f) \<in> set (p # D)} = insert (snd p) {f. (b, f) \<in> set D}"
    proof (intro set_eqI iffI)
      fix f assume "f \<in> {f. (b, f) \<in> set (p # D)}"
      then have "(b, f) = p \<or> (b, f) \<in> set D" by auto
      then show "f \<in> insert (snd p) {f. (b, f) \<in> set D}" by auto
    next
      fix f assume "f \<in> insert (snd p) {f. (b, f) \<in> set D}"
      then have "f = snd p \<or> (b, f) \<in> set D" by auto
      then show "f \<in> {f. (b, f) \<in> set (p # D)}" using p by auto
    qed
    moreover have "pos (p # D) (b, snd p) = 0" using p by simp
    ultimately show ?thesis using True IH' by simp
  next
    case False
    then have "{f. (b, f) \<in> set (p # D)} = {f. (b, f) \<in> set D}" by auto
    then show ?thesis using False IH' by simp
  qed
qed

lemma origins_from_lower: "x \<in> set (origins_from k D b) \<Longrightarrow> int k < fst x"
  by (induction D arbitrary: k) (force split: if_splits)+

lemma origins_from_sorted: "sorted_wrt (<) (map fst (origins_from k D b))"
proof (induction D arbitrary: k)
  case Nil
  show ?case by simp
next
  case (Cons p D)
  have "\<forall>x \<in> set (origins_from (Suc k) D b). 1 + int k < fst x"
    using origins_from_lower [of _ "Suc k" D b] by auto
  then show ?case using Cons [of "Suc k"] by auto
qed

lemma origins_from_empty: "\<forall>f. (b, f) \<notin> set D \<Longrightarrow> origins_from k D b = []"
  by (induction D arbitrary: k) auto

lemmas registry_eval = register_gid_def map_gid_def defaultdict_getitem_def TiledMap_init_def Let_def

text \<open>
  Claim C1. On a map that starts as the constructor leaves it and then sees any history
  of \<open>register_gid\<close> and \<open>map_gid\<close> calls: every registration returns a GID (0 for base
  GID 0, and a compact GID from 1 up to the counter otherwise); two registrations of the
  same pair return the same GID; registrations of different pairs with nonzero base GID
  return different GIDs; the counter \<open>maxgid\<close>, which starts at 1 and moves by one at
  each allocation, ends at one more than the number of distinct pairs with nonzero base
  GID, so each pair was allocated once; and the number of distinct compact GIDs handed
  out is the number of those pairs.
\<close>

theorem register_gid_dedup:
  assumes "run_calls TiledMap_init cs = (os, s)"
  shows "length os = length cs \<and>
    (\<forall>i<length cs. \<forall>b f. cs ! i = Register b f \<longrightarrow>
       (\<exists>g. os ! i = Gid g \<and> (b = 0 \<longrightarrow> g = 0) \<and> (b \<noteq> 0 \<longrightarrow> 1 \<le> g \<and> g < maxgid s))) \<and>
    (\<forall>i<length cs. \<forall>j<length cs. \<forall>b f.
       cs ! i = Register b f \<and> cs ! j = Register b f \<longrightarrow> os ! i = os ! j) \<and>
    (\<forall>i<length cs. \<forall>j<length cs. \<forall>b f b' f'.
       cs ! i = Register b f \<and> cs ! j = Register b' f' \<and> b \<noteq> 0 \<and> b' \<noteq> 0 \<and> os ! i = os ! j \<longrightarrow>
       b = b' \<and> f = f') \<and>
    maxgid s = 1 + int (card {(b, f). Register b f \<in> set cs \<and> b \<noteq> 0}) \<and>
    card {g. \<exists>i<length cs. \<exists>b f. cs ! i = Register b f \<and> b \<noteq> 0 \<and> os ! i = Gid g} =
      card {(b, f). Register b f \<in> set cs \<and> b \<noteq> 0}"
proof -
  let ?F = "first_seen [] cs"
  let ?P = "{(b, f). Register b f \<in> set cs \<and> b \<noteq> 0}"
  from run_calls_spec [OF registry_inv_init assms]
  have inv: "registry_inv s ?F" and len: "length os = length cs"
    and out: "\<And>i. i < length cs \<Longrightarrow> os ! i =
        (case cs ! i of
           Register b f \<Rightarrow> Gid (if b = 0 then 0 else 1 + int (pos ?F (b, f)))
         | Lookup b \<Rightarrow> Origins (origins_from 0 (first_seen [] (take i cs)) b))"
    by blast+
  have setF: "set ?F = ?P" by (simp add: first_seen_set)
  have distF: "distinct ?F" by (simp add: first_seen_distinct)
  have cardP: "card ?P = length ?F" using setF distF distinct_card by metis
  have mg: "maxgid s = 1 + int (length ?F)" using inv by (simp add: registry_inv_def)
  have reg: "os ! i = Gid (if b = 0 then 0 else 1 + int (pos ?F (b, f)))"
    if "i < length cs" "cs ! i = Register b f" for i b f
    using out [OF that(1)] that(2) by simp
  have inP: "(b, f) \<in> set ?F" if "i < length cs" "cs ! i = Register b f" "b \<noteq> 0" for i b f
    using that setF nth_mem [OF that(1)] by auto
  have c2: "\<forall>i<length cs. \<forall>b f. cs ! i = Register b f \<longrightarrow>
       (\<exists>g. os ! i = Gid g \<and> (b = 0 \<longrightarrow> g = 0) \<and> (b \<noteq> 0 \<longrightarrow> 1 \<le> g \<and> g < maxgid s))"
  proof (intro allI impI)
    fix i b f assume i: "i < length cs" and c: "cs ! i = Register b f"
    have "b \<noteq> 0 \<Longrightarrow> pos ?F (b, f) < length ?F"
      using pos_less [OF inP [OF i c]] by simp
    then show "\<exists>g. os ! i = Gid g \<and> (b = 0 \<longrightarrow> g = 0) \<and> (b \<noteq> 0 \<longrightarrow> 1 \<le> g \<and> g < maxgid s)"
      using reg [OF i c] mg by auto
  qed
  have c3: "\<forall>i<length cs. \<forall>j<length cs. \<forall>b f.
       cs ! i = Register b f \<and> cs ! j = Register b f \<longrightarrow> os ! i = os ! j"
    using reg by simp
  have c4: "\<forall>i<length cs. \<forall>j<length cs. \<forall>b f b' f'.
       cs ! i = Register b f \<and> cs ! j = Register b' f' \<and> b \<noteq> 0 \<and> b' \<noteq> 0 \<and> os ! i = os ! j \<longrightarrow>
       b = b' \<and> f = f'"
  proof (intro allI impI)
    fix i j b f b' f'
    assume i: "i < length cs" and j: "j < length cs"
      and h: "cs ! i = Register b f \<and> cs ! j = Register b' f' \<and> b \<noteq> 0 \<and> b' \<noteq> 0 \<and> os ! i = os ! j"
    then have "pos ?F (b, f) = pos ?F (b', f')"
      using reg [OF i, of b f] reg [OF j, of b' f'] by simp
    moreover have "(b, f) \<in> set ?F" "(b', f') \<in> set ?F"
      using inP [OF i, of b f] inP [OF j, of b' f'] h by simp_all
    ultimately have "(b, f) = (b', f')" by (rule pos_inj [rotated 2])
    then show "b = b' \<and> f = f'" by simp
  qed
  have G: "{g. \<exists>i<length cs. \<exists>b f. cs ! i = Register b f \<and> b \<noteq> 0 \<and> os ! i = Gid g} =
           (\<lambda>p. 1 + int (pos ?F p)) ` ?P"
  proof (intro set_eqI iffI)
    fix g
    assume "g \<in> {g. \<exists>i<length cs. \<exists>b f. cs ! i = Register b f \<and> b \<noteq> 0 \<and> os ! i = Gid g}"
    then obtain i b f where i: "i < length cs" and c: "cs ! i = Register b f" and nz: "b \<noteq> 0"
      and g: "os ! i = Gid g" by blast
    have "g = 1 + int (pos ?F (b, f))" using reg [OF i c] g nz by simp
    moreover have "(b, f) \<in> ?P" using inP [OF i c nz] setF by simp
    ultimately show "g \<in> (\<lambda>p. 1 + int (pos ?F p)) ` ?P" by blast
  next
    fix g
    assume "g \<in> (\<lambda>p. 1 + int (pos ?F p)) ` ?P"
    then obtain b f where g: "g = 1 + int (pos ?F (b, f))" and m: "Register b f \<in> set cs"
      and nz: "b \<noteq> 0" by auto
    from m obtain i where i: "i < length cs" and c: "cs ! i = Register b f"
      by (auto simp: in_set_conv_nth)
    have "os ! i = Gid g" using reg [OF i c] nz g by simp
    then show "g \<in> {g. \<exists>i<length cs. \<exists>b f. cs ! i = Register b f \<and> b \<noteq> 0 \<and> os ! i = Gid g}"
      using i c nz by blast
  qed
  have "inj_on (\<lambda>p. 1 + int (pos ?F p)) ?P"
  proof (rule inj_onI)
    fix x y assume "x \<in> ?P" "y \<in> ?P" "1 + int (pos ?F x) = 1 + int (pos ?F y)"
    then have "x \<in> set ?F" "y \<in> set ?F" "pos ?F x = pos ?F y" using setF by simp_all
    then show "x = y" by (rule pos_inj)
  qed
  then have c6: "card {g. \<exists>i<length cs. \<exists>b f. cs ! i = Register b f \<and> b \<noteq> 0 \<and> os ! i = Gid g} =
      card ?P"
    by (simp only: G card_image)
  have c5: "maxgid s = 1 + int (card ?P)" using mg cardP by simp
  show ?thesis
    by (rule conjI [OF len conjI [OF c2 conjI [OF c3 conjI [OF c4 conjI [OF c5 c6]]]]])
qed


theorem register_gid_dedup_witness:
  "fst (run_calls TiledMap_init
          [Register 13 0, Lookup 13, Register 13 2, Register 0 1, Register 13 0, Register 7 0]) =
     [Gid 1, Origins [(1, 0)], Gid 2, Gid 0, Gid 1, Gid 3] \<and>
   maxgid (snd (run_calls TiledMap_init
          [Register 13 0, Lookup 13, Register 13 2, Register 0 1, Register 13 0, Register 7 0])) = 4 \<and>
   card {(b, f). Register b f \<in>
           set [Register 13 0, Lookup 13, Register 13 2, Register 0 1, Register 13 0, Register 7 0]
           \<and> b \<noteq> 0} = 3"
proof -
  let ?cs = "[Register 13 0, Lookup 13, Register 13 2, Register 0 1, Register 13 0, Register 7 0]"
  have e1: "fst (run_calls TiledMap_init ?cs) = [Gid 1, Origins [(1, 0)], Gid 2, Gid 0, Gid 1, Gid 3]"
    by (simp add: registry_eval)
  have e2: "maxgid (snd (run_calls TiledMap_init ?cs)) = 4"
    by (simp add: registry_eval)
  from register_gid_dedup [OF prod.collapse [symmetric], of ?cs]
  have "maxgid (snd (run_calls TiledMap_init ?cs)) =
      1 + int (card {(b, f). Register b f \<in> set ?cs \<and> b \<noteq> 0})"
    by blast
  with e2 have "card {(b, f). Register b f \<in> set ?cs \<and> b \<noteq> 0} = 3" by simp
  with e1 e2 show ?thesis by blast
qed

text \<open>
  Claim C8. After any history of registry calls on a fresh map, no call has raised, and
  \<open>map_gid\<close> of a base GID returns, without raising, the list of the \<open>(compact GID,
  flags)\<close> pairs allocated for it, in allocation order: the list is empty for base GID 0
  and for a base GID that was never registered; for another base GID its elements are
  exactly the pairs \<open>(g, f)\<close> such that a registration of \<open>(b, f)\<close> returned \<open>g\<close>, and
  their compact GIDs increase along the list. A lookup inside the history returns the
  list of the allocations made before it.
\<close>

theorem map_gid_origins:
  assumes "run_calls TiledMap_init cs = (os, s)"
  shows "(\<forall>i<length cs. \<forall>e. os ! i \<noteq> Raised e) \<and>
    (\<exists>s'. map_gid s b = Inr (origins_from 0 (first_seen [] cs) b, s')) \<and>
    (b = 0 \<or> (\<forall>f. Register b f \<notin> set cs) \<longrightarrow> origins_from 0 (first_seen [] cs) b = []) \<and>
    (b \<noteq> 0 \<longrightarrow> set (origins_from 0 (first_seen [] cs) b) =
       {(g, f). \<exists>i<length cs. cs ! i = Register b f \<and> os ! i = Gid g}) \<and>
    sorted_wrt (<) (map fst (origins_from 0 (first_seen [] cs) b)) \<and>
    (\<forall>i<length cs. \<forall>b'. cs ! i = Lookup b' \<longrightarrow>
       os ! i = Origins (origins_from 0 (first_seen [] (take i cs)) b'))"
proof -
  let ?F = "first_seen [] cs"
  from run_calls_spec [OF registry_inv_init assms]
  have inv: "registry_inv s ?F" and len: "length os = length cs"
    and out: "\<And>i. i < length cs \<Longrightarrow> os ! i =
        (case cs ! i of
           Register b f \<Rightarrow> Gid (if b = 0 then 0 else 1 + int (pos ?F (b, f)))
         | Lookup b \<Rightarrow> Origins (origins_from 0 (first_seen [] (take i cs)) b))"
    by blast+
  have setF: "set ?F = {(b, f). Register b f \<in> set cs \<and> b \<noteq> 0}" by (simp add: first_seen_set)
  have distF: "distinct ?F" by (simp add: first_seen_distinct)
  have c1: "\<forall>i<length cs. \<forall>e. os ! i \<noteq> Raised e"
  proof (intro allI impI)
    fix i e assume "i < length cs"
    from out [OF this] show "os ! i \<noteq> Raised e" by (cases "cs ! i") simp_all
  qed
  have c2: "\<exists>s'. map_gid s b = Inr (origins_from 0 ?F b, s')"
    using map_gid_inv [OF inv, of b] by blast
  have c3: "b = 0 \<or> (\<forall>f. Register b f \<notin> set cs) \<longrightarrow> origins_from 0 ?F b = []"
  proof
    assume "b = 0 \<or> (\<forall>f. Register b f \<notin> set cs)"
    then have "\<forall>f. (b, f) \<notin> set ?F" using setF by auto
    then show "origins_from 0 ?F b = []" by (rule origins_from_empty)
  qed
  have c4: "b \<noteq> 0 \<longrightarrow> set (origins_from 0 ?F b) =
       {(g, f). \<exists>i<length cs. cs ! i = Register b f \<and> os ! i = Gid g}"
  proof
    assume nz: "b \<noteq> 0"
    have reg: "os ! i = Gid (1 + int (pos ?F (b, f)))" if "i < length cs" "cs ! i = Register b f" for i f
      using out [OF that(1)] that(2) nz by simp
    have "set (origins_from 0 ?F b) = (\<lambda>f. (1 + int (pos ?F (b, f)), f)) ` {f. (b, f) \<in> set ?F}"
      using origins_from_set [OF distF, of 0 b] by simp
    also have "\<dots> = {(g, f). \<exists>i<length cs. cs ! i = Register b f \<and> os ! i = Gid g}"
    proof (intro set_eqI iffI)
      fix x assume "x \<in> (\<lambda>f. (1 + int (pos ?F (b, f)), f)) ` {f. (b, f) \<in> set ?F}"
      then obtain f where x: "x = (1 + int (pos ?F (b, f)), f)" and "(b, f) \<in> set ?F" by blast
      then have "Register b f \<in> set cs" using setF by simp
      then obtain i where i: "i < length cs" "cs ! i = Register b f"
        by (auto simp: in_set_conv_nth)
      then show "x \<in> {(g, f). \<exists>i<length cs. cs ! i = Register b f \<and> os ! i = Gid g}"
        using reg [OF i] x by blast
    next
      fix x assume "x \<in> {(g, f). \<exists>i<length cs. cs ! i = Register b f \<and> os ! i = Gid g}"
      then obtain g f i where x: "x = (g, f)" and i: "i < length cs" "cs ! i = Register b f"
        and g: "os ! i = Gid g" by blast
      have "(b, f) \<in> set ?F" using setF nz nth_mem [OF i(1)] i(2) by auto
      moreover have "g = 1 + int (pos ?F (b, f))" using reg [OF i] g by simp
      ultimately show "x \<in> (\<lambda>f. (1 + int (pos ?F (b, f)), f)) ` {f. (b, f) \<in> set ?F}"
        using x by blast
    qed
    finally show "set (origins_from 0 ?F b) =
       {(g, f). \<exists>i<length cs. cs ! i = Register b f \<and> os ! i = Gid g}" .
  qed
  have c5: "sorted_wrt (<) (map fst (origins_from 0 ?F b))" by (rule origins_from_sorted)
  have c6: "\<forall>i<length cs. \<forall>b'. cs ! i = Lookup b' \<longrightarrow>
       os ! i = Origins (origins_from 0 (first_seen [] (take i cs)) b')"
  proof (intro allI impI)
    fix i b' assume "i < length cs" "cs ! i = Lookup b'"
    then show "os ! i = Origins (origins_from 0 (first_seen [] (take i cs)) b')"
      using out [of i] by simp
  qed
  show ?thesis
    by (rule conjI [OF c1 conjI [OF c2 conjI [OF c3 conjI [OF c4 conjI [OF c5 c6]]]]])
qed

theorem map_gid_origins_witness:
  "(\<exists>s'. map_gid (snd (run_calls TiledMap_init
             [Register 13 0, Register 7 4, Register 13 2, Register 13 0, Lookup 5])) 13 =
          Inr ([(1, 0), (3, 2)], s')) \<and>
   (\<exists>s'. map_gid (snd (run_calls TiledMap_init
             [Register 13 0, Register 7 4, Register 13 2, Register 13 0, Lookup 5])) 5 =
          Inr ([], s')) \<and>
   fst (run_calls TiledMap_init
             [Register 13 0, Register 7 4, Register 13 2, Register 13 0, Lookup 5]) =
     [Gid 1, Gid 2, Gid 3, Gid 1, Origins []]"
proof -
  let ?cs = "[Register 13 0, Register 7 4, Register 13 2, Register 13 0, Lookup 5]"
  have F: "first_seen [] ?cs = [(13, 0), (7, 4), (13, 2)]" by simp
  from map_gid_origins [OF prod.collapse [symmetric], of ?cs 13]
  have "\<exists>s'. map_gid (snd (run_calls TiledMap_init ?cs)) 13 =
          Inr (origins_from 0 (first_seen [] ?cs) 13, s')"
    by blast
  then have a: "\<exists>s'. map_gid (snd (run_calls TiledMap_init ?cs)) 13 = Inr ([(1, 0), (3, 2)], s')"
    by (simp only: F) simp
  from map_gid_origins [OF prod.collapse [symmetric], of ?cs 5]
  have "\<exists>s'. map_gid (snd (run_calls TiledMap_init ?cs)) 5 =
          Inr (origins_from 0 (first_seen [] ?cs) 5, s')"
    by blast
  then have b: "\<exists>s'. map_gid (snd (run_calls TiledMap_init ?cs)) 5 = Inr ([], s')"
    by (simp only: F) simp
  have c: "fst (run_calls TiledMap_init ?cs) = [Gid 1, Gid 2, Gid 3, Gid 1, Origins []]"
    by (simp add: registry_eval)
  from a b c show ?thesis by blast
qed

text \<open>
  Claim C9. For every flags value and every map, \<open>register_gid(0, flags)\<close> returns 0 and
  leaves the map as it was: no counter, forward-table or reverse-table change.
\<close>

theorem register_gid_zero: "register_gid self 0 flags = Inr (0, self)"
  by (simp add: register_gid_def)

section \<open>Proofs: strings, CSV payloads and boolean properties\<close>

lemmas str_eval = py_int_def py_strip_def is_space_def int_strip_def int_space_def
  py_unsigned_def is_digit_def digit_val_def py_lower_def lower_char_def char_of_eq_iff

lemma filter_dropWhile_not: "filter (\<lambda>x. \<not> Q x) (dropWhile Q xs) = filter (\<lambda>x. \<not> Q x) xs"
  by (induction xs) auto

lemma filter_py_strip: "filter (\<lambda>c. \<not> is_space c) (py_strip s) = filter (\<lambda>c. \<not> is_space c) s"
proof -
  have "filter (\<lambda>c. \<not> is_space c) (py_strip s) =
        rev (filter (\<lambda>c. \<not> is_space c) (dropWhile is_space (rev (dropWhile is_space s))))"
    by (simp add: py_strip_def rev_filter)
  also have "\<dots> = rev (filter (\<lambda>c. \<not> is_space c) (rev (dropWhile is_space s)))"
    by (simp only: filter_dropWhile_not)
  also have "\<dots> = filter (\<lambda>c. \<not> is_space c) (dropWhile is_space s)"
    by (simp add: rev_filter [symmetric])
  also have "\<dots> = filter (\<lambda>c. \<not> is_space c) s"
    by (rule filter_dropWhile_not)
  finally show ?thesis .
qed

lemma py_strip_single: "py_strip [c] = (if is_space c then [] else [c])"
  by (simp add: py_strip_def)

lemma concat_strip_chars: "concat (map (\<lambda>line. py_strip [line]) s) = filter (\<lambda>c. \<not> is_space c) s"
  by (induction s) (simp_all add: py_strip_single)

lemma is_space_codes:
  "is_space c \<longleftrightarrow> of_char c \<in> {9, 10, 11, 12, 13, 28, 29, 30, 31, 32, 133, 160 :: nat}"
  unfolding is_space_def Let_def by auto

text \<open>
  Claim C10. CSV decoding takes the text character by character and strips each, so
  every whitespace character of the payload (every character for which \<open>str.isspace\<close>
  holds: the code points 9 to 13, 28 to 32, \<open>0x85\<close> and \<open>0xa0\<close>) is removed before the text
  is split at the commas: the tokens are those of the text without its whitespace.
  Whitespace inside a numeral joins its digits: the text \<open>1 2,3\<close> decodes to the values
  12 and 3, and so does the text with a no-break space in place of the space.
\<close>

theorem csv_whitespace_removed:
  "csv_tokens txt = py_split CHR '','' (filter (\<lambda>c. \<not> is_space c) txt) \<and>
   (is_space c \<longleftrightarrow>
      of_char c \<in> {9, 10, 11, 12, 13, 28, 29, 30, 31, 32, 133, 160 :: nat}) \<and>
   csv_tokens ''1 2,3'' = [''12'', ''3''] \<and>
   csv_iter ''1 2,3'' = [Inr 12, Inr 3] \<and>
   csv_iter ([CHR ''1'', CHR 0xA0, CHR ''2'', CHR '','', CHR 0x1C, CHR ''3'', CHR 0x0A]) =
     [Inr 12, Inr 3]"
proof -
  have gen: "csv_tokens t = py_split CHR '','' (filter (\<lambda>c. \<not> is_space c) t)" for t
    by (simp only: csv_tokens_def concat_strip_chars filter_py_strip)
  have toks: "csv_tokens ''1 2,3'' = [''12'', ''3'']"
    by (simp add: gen is_space_def)
  have it: "csv_iter ''1 2,3'' = [Inr 12, Inr 3]"
    by (simp add: csv_iter_def toks int_of_attr_def str_eval)
  have toks2: "csv_tokens ([CHR ''1'', CHR 0xA0, CHR ''2'', CHR '','', CHR 0x1C, CHR ''3'', CHR 0x0A]) =
      [''12'', ''3'']"
    by (simp add: gen is_space_def)
  have it2: "csv_iter ([CHR ''1'', CHR 0xA0, CHR ''2'', CHR '','', CHR 0x1C, CHR ''3'', CHR 0x0A]) =
     [Inr 12, Inr 3]"
    by (simp add: csv_iter_def toks2 int_of_attr_def str_eval)
  show ?thesis
    by (rule conjI [OF gen conjI [OF is_space_codes conjI [OF toks conjI [OF it it2]]]])
qed

lemma set_int_strip: "set (int_strip s) \<subseteq> set s"
proof -
  have "set (int_strip s) \<subseteq> set (dropWhile int_space s)"
    unfolding int_strip_def using set_dropWhileD by fastforce
  then show ?thesis using set_dropWhileD by fastforce
qed

lemma py_unsigned_digit: "py_unsigned s = Some n \<Longrightarrow> \<exists>c \<in> set s. is_digit c"
  by (cases s) (auto simp: py_unsigned_def split: if_splits)

lemma py_int_digit:
  assumes "py_int s = Some n"
  shows "\<exists>c \<in> set s. is_digit c"
proof -
  from assms have "\<exists>t m. set t \<subseteq> set (int_strip s) \<and> py_unsigned t = Some m"
  proof (cases "int_strip s")
    case Nil
    with assms show ?thesis by (simp add: py_int_def)
  next
    case (Cons c cs)
    with assms have "py_unsigned cs \<noteq> None \<or> py_unsigned (c # cs) \<noteq> None"
      by (auto simp: py_int_def split: if_splits)
    then show ?thesis
    proof
      assume "py_unsigned cs \<noteq> None"
      then obtain m where "py_unsigned cs = Some m" by auto
      moreover have "set cs \<subseteq> set (int_strip s)" using Cons by auto
      ultimately show ?thesis by blast
    next
      assume "py_unsigned (c # cs) \<noteq> None"
      then obtain m where "py_unsigned (c # cs) = Some m" by auto
      then show ?thesis using Cons by (intro exI [of _ "c # cs"]) auto
    qed
  qed
  then show ?thesis using py_unsigned_digit set_int_strip by blast
qed

lemma lower_digit: "is_digit c \<Longrightarrow> lower_char c = c"
  by (simp add: is_digit_def lower_char_def Let_def)

lemma word_not_int:
  assumes "py_lower s \<in> {''true'', ''yes'', ''false'', ''no''}"
  shows "py_int s = None"
proof (rule ccontr)
  assume "py_int s \<noteq> None"
  then obtain n where "py_int s = Some n" by auto
  then obtain c where c: "c \<in> set s" "is_digit c" using py_int_digit by blast
  then have "c \<in> set (py_lower s)"
    using lower_digit [OF c(2)] by (force simp: py_lower_def)
  with assms c(2) show False
    by (auto simp: is_digit_def)
qed

text \<open>
  Claim C7. \<open>handle_bool\<close> on a string: when the string parses as an integer, the result
  is whether that integer is nonzero; a string that is, without regard to case, \<open>true\<close>
  or \<open>yes\<close> (\<open>false\<close> or \<open>no\<close>) does not parse as an integer and gives True (False);
  every other string raises ValueError. \<open>0\<close> gives False, \<open>yes\<close> True, and \<open>maybe\<close>
  raises. \<open>int\<close> skips a no-break space but not the separator \<open>0x1c\<close>: the digit 1 after
  a no-break space gives True, and the digit 5 after \<open>0x1c\<close> raises.
\<close>

theorem handle_bool_decoding:
  "(\<forall>n. py_int s = Some n \<longrightarrow> handle_bool s = Inr (n \<noteq> 0)) \<and>
   (py_lower s \<in> {''true'', ''yes''} \<longrightarrow> py_int s = None \<and> handle_bool s = Inr True) \<and>
   (py_lower s \<in> {''false'', ''no''} \<longrightarrow> py_int s = None \<and> handle_bool s = Inr False) \<and>
   (py_int s = None \<and> py_lower s \<notin> {''true'', ''yes'', ''false'', ''no''} \<longrightarrow>
      handle_bool s = Inl ValueError) \<and>
   handle_bool ''0'' = Inr False \<and>
   handle_bool ''yes'' = Inr True \<and>
   handle_bool ''maybe'' = Inl ValueError \<and>
   handle_bool [CHR 0xA0, CHR ''1''] = Inr True \<and>
   handle_bool [CHR 0x1C, CHR ''5''] = Inl ValueError"
proof -
  have a: "\<forall>n. py_int s = Some n \<longrightarrow> handle_bool s = Inr (n \<noteq> 0)"
    by (simp add: handle_bool_def)
  have b: "py_lower s \<in> {''true'', ''yes''} \<longrightarrow> py_int s = None \<and> handle_bool s = Inr True"
    using word_not_int [of s] by (auto simp: handle_bool_def)
  have c: "py_lower s \<in> {''false'', ''no''} \<longrightarrow> py_int s = None \<and> handle_bool s = Inr False"
    using word_not_int [of s] by (auto simp: handle_bool_def)
  have d: "py_int s = None \<and> py_lower s \<notin> {''true'', ''yes'', ''false'', ''no''} \<longrightarrow>
      handle_bool s = Inl ValueError"
    by (simp add: handle_bool_def)
  have e: "handle_bool ''0'' = Inr False" "handle_bool ''yes'' = Inr True"
    "handle_bool ''maybe'' = Inl ValueError"
    "handle_bool [CHR 0xA0, CHR ''1''] = Inr True"
    "handle_bool [CHR 0x1C, CHR ''5''] = Inl ValueError"
    by (simp_all add: handle_bool_def str_eval)
  from a b c d e show ?thesis by blast
qed

theorem handle_bool_decoding_witness:
  "handle_bool '' -12 '' = Inr True \<and> handle_bool ''YeS'' = Inr True \<and>
   handle_bool ''FALSE'' = Inr False \<and> handle_bool ''maybe'' = Inl ValueError \<and>
   handle_bool ''1 0'' = Inl ValueError \<and>
   handle_bool [CHR 0x85, CHR ''0'', CHR 0xA0] = Inr False \<and>
   handle_bool [CHR 0x1F, CHR ''7''] = Inl ValueError"
proof -
  have i: "py_int '' -12 '' = Some (-12)" by (simp add: str_eval)
  have y: "py_lower ''YeS'' \<in> {''true'', ''yes''}" by (simp add: str_eval)
  have f: "py_lower ''FALSE'' \<in> {''false'', ''no''}" by (simp add: str_eval)
  have m: "py_int ''1 0'' = None \<and> py_lower ''1 0'' \<notin> {''true'', ''yes'', ''false'', ''no''}"
    by (simp add: str_eval)
  have z: "py_int [CHR 0x85, CHR ''0'', CHR 0xA0] = Some 0" by (simp add: str_eval)
  have u: "py_int [CHR 0x1F, CHR ''7''] = None \<and>
      py_lower [CHR 0x1F, CHR ''7''] \<notin> {''true'', ''yes'', ''false'', ''no''}"
    by (simp add: str_eval)
  have "handle_bool '' -12 '' = Inr ((-12::int) \<noteq> 0)"
    using handle_bool_decoding [of "'' -12 ''"] i by blast
  moreover have "handle_bool ''YeS'' = Inr True"
    using handle_bool_decoding [of "''YeS''"] y by blast
  moreover have "handle_bool ''FALSE'' = Inr False"
    using handle_bool_decoding [of "''FALSE''"] f by blast
  moreover have "handle_bool ''maybe'' = Inl ValueError"
    using handle_bool_decoding [of "''maybe''"] by blast
  moreover have "handle_bool ''1 0'' = Inl ValueError"
    using handle_bool_decoding [of "''1 0''"] m by blast
  moreover have "handle_bool [CHR 0x85, CHR ''0'', CHR 0xA0] = Inr ((0::int) \<noteq> 0)"
    using handle_bool_decoding [of "[CHR 0x85, CHR ''0'', CHR 0xA0]"] z by blast
  moreover have "handle_bool [CHR 0x1F, CHR ''7''] = Inl ValueError"
    using handle_bool_decoding [of "[CHR 0x1F, CHR ''7'']"] u by blast
  ultimately show ?thesis by simp
qed

section \<open>Proofs: tile layers\<close>

lemma next_item_yielded:
  "next_item it = Inr (v, it') \<Longrightarrow> yielded it = Suc (yielded it')"
  by (auto simp: next_item_def yielded_def split: option.splits list.splits sum.splits)

lemma fill_cells_truncated:
  "yielded it < length cells \<Longrightarrow> \<exists>e. fill_cells parent it cells data = Inl e"
proof (induction cells arbitrary: parent it data)
  case Nil
  then show ?case by simp
next
  case (Cons c cells)
  obtain y x where c: "c = (y, x)" by (cases c)
  show ?case
  proof (cases "next_item it")
    case (Inl e)
    then show ?thesis using c by simp
  next
    case (Inr r)
    obtain v it' where r: "r = (v, it')" by (cases r)
    from next_item_yielded [of it v it'] Inr r Cons.prems
    have "yielded it' < length cells" by simp
    from Cons.IH [OF this] show ?thesis using c Inr r
      by (auto split: prod.splits sum.splits)
  qed
qed

lemma register_gid_allocated:
  assumes "register_gid m b f = Inr (g, m')"
  shows "allocated m' g \<and> (\<forall>g'. allocated m g' \<longrightarrow> allocated m' g')"
proof (cases "b = 0")
  case True
  with assms show ?thesis by (simp add: register_gid_def allocated_def)
next
  case False
  show ?thesis
  proof (cases "imagemap m (b, f)")
    case None
    with assms False have g: "g = maxgid m"
      and im: "imagemap m' = (imagemap m)((b, f) \<mapsto> GidPair (maxgid m) f)"
      by (auto simp: register_gid_def Let_def split: prod.splits)
    have "allocated m' g" unfolding allocated_def im g by auto
    moreover have "allocated m g' \<longrightarrow> allocated m' g'" for g'
      unfolding allocated_def im using None by (metis fun_upd_apply option.distinct(1))
    ultimately show ?thesis by blast
  next
    case (Some en)
    with assms False show ?thesis
      by (cases en) (auto simp: register_gid_def allocated_def)
  qed
qed

lemma map_length_update: "map length (data[y := (data ! y)[x := g]]) = map length data"
  by (cases "y < length data") (simp_all add: map_update list_update_same_conv list_update_beyond)

lemma fill_cells_shape:
  "fill_cells parent it cells data = Inr (data', parent') \<Longrightarrow> map length data' = map length data"
proof (induction cells arbitrary: parent it data)
  case Nil
  then show ?case by simp
next
  case (Cons c cells)
  obtain y x where c: "c = (y, x)" by (cases c)
  from Cons.prems c obtain g p' it' where
    rec: "fill_cells p' it' cells (data[y := (data ! y)[x := g]]) = Inr (data', parent')"
    by (auto split: sum.splits prod.splits if_splits)
  from Cons.IH [OF rec] show ?case by (simp only: map_length_update)
qed

lemma cells_update:
  assumes "\<forall>row \<in> set data. \<forall>v \<in> set row. P v" "P g"
  shows "\<forall>row \<in> set (data[y := (data ! y)[x := g]]). \<forall>v \<in> set row. P v"
proof (intro ballI)
  fix row v assume row: "row \<in> set (data[y := (data ! y)[x := g]])" and v: "v \<in> set row"
  from row have "row \<in> set data \<or> (y < length data \<and> row = (data ! y)[x := g])"
    using set_update_subset_insert [of data y "(data ! y)[x := g]"]
    by (cases "y < length data") (auto simp: list_update_beyond)
  then show "P v"
  proof
    assume "row \<in> set data"
    with assms(1) v show ?thesis by blast
  next
    assume h: "y < length data \<and> row = (data ! y)[x := g]"
    then have "v \<in> insert g (set (data ! y))"
      using v set_update_subset_insert [of "data ! y" x g] by blast
    moreover have "data ! y \<in> set data" using h by simp
    ultimately show ?thesis using assms by blast
  qed
qed

lemma fill_cells_allocated:
  "fill_cells parent it cells data = Inr (data', parent') \<Longrightarrow>
   \<forall>row \<in> set data. \<forall>v \<in> set row. allocated parent v \<and> 0 \<le> v \<and> v \<le> 65535 \<Longrightarrow>
   \<forall>row \<in> set data'. \<forall>v \<in> set row. allocated parent' v \<and> 0 \<le> v \<and> v \<le> 65535"
proof (induction cells arbitrary: parent it data)
  case Nil
  then show ?case by simp
next
  case (Cons c cells)
  obtain y x where c: "c = (y, x)" by (cases c)
  from Cons.prems(1) c obtain gid flags it' g p' where
    reg: "register_gid parent gid flags = Inr (g, p')"
    and rng: "0 \<le> g" "g \<le> 65535"
    and rec: "fill_cells p' it' cells (data[y := (data ! y)[x := g]]) = Inr (data', parent')"
    by (auto split: sum.splits prod.splits if_splits)
  from register_gid_allocated [OF reg]
  have g: "allocated p' g" and mono: "\<And>v. allocated parent v \<Longrightarrow> allocated p' v" by blast+
  have "\<forall>row \<in> set data. \<forall>v \<in> set row. allocated p' v \<and> 0 \<le> v \<and> v \<le> 65535"
    using Cons.prems(2) mono by blast
  then have "\<forall>row \<in> set (data[y := (data ! y)[x := g]]). \<forall>v \<in> set row.
      allocated p' v \<and> 0 \<le> v \<and> v \<le> 65535"
    using g rng by (intro cells_update) auto
  from Cons.IH [OF rec this] show ?case .
qed


lemma fill_grid_shape:
  assumes "fill_grid elem parent next_gid = Inr (elem', parent')"
  shows "elem' = elem\<lparr>tl_data := tl_data elem'\<rparr> \<and>
         length (tl_data elem') = nat (tl_height elem) \<and>
         (\<forall>row \<in> set (tl_data elem'). length row = nat (tl_width elem) \<and>
            (\<forall>g \<in> set row. allocated parent' g \<and> 0 \<le> g \<and> g \<le> 65535))"
proof -
  let ?data0 = "replicate (nat (tl_height elem)) (replicate (nat (tl_width elem)) (0::int))"
  let ?cells = "List.product [0..<nat (tl_height elem)] [0..<nat (tl_width elem)]"
  from assms obtain data where
    fc: "fill_cells parent next_gid ?cells ?data0 = Inr (data, parent')"
    and el: "elem' = elem\<lparr>tl_data := data\<rparr>"
    by (auto simp: fill_grid_def Let_def split: sum.splits)
  have sh: "map length data = replicate (nat (tl_height elem)) (nat (tl_width elem))"
    using fill_cells_shape [OF fc] by simp
  then have len: "length data = nat (tl_height elem)"
    by (metis length_map length_replicate)
  have rows: "length row = nat (tl_width elem)" if "row \<in> set data" for row
  proof -
    from that have "length row \<in> set (map length data)" by simp
    then show ?thesis unfolding sh by simp
  qed
  have "\<forall>row \<in> set ?data0. \<forall>v \<in> set row. allocated parent v \<and> 0 \<le> v \<and> v \<le> 65535"
    by (auto simp: allocated_def)
  from fill_cells_allocated [OF fc this]
  have al: "\<forall>row \<in> set data. \<forall>v \<in> set row. allocated parent' v \<and> 0 \<le> v \<and> v \<le> 65535" .
  show ?thesis using el len rows al by simp
qed

lemma fill_grid_truncated:
  assumes "0 \<le> tl_width elem" "0 \<le> tl_height elem"
    "int (yielded next_gid) < tl_width elem * tl_height elem"
  shows "\<exists>e. fill_grid elem parent next_gid = Inl e"
proof -
  let ?cells = "List.product [0..<nat (tl_height elem)] [0..<nat (tl_width elem)]"
  have "int (length ?cells) = tl_width elem * tl_height elem"
    using assms(1,2) by (simp add: length_product)
  with assms(3) have "yielded next_gid < length ?cells" by linarith
  from fill_cells_truncated [OF this]
  obtain e where "fill_cells parent next_gid ?cells
      (replicate (nat (tl_height elem)) (replicate (nat (tl_width elem)) 0)) = Inl e"
    by blast
  then show ?thesis by (simp add: fill_grid_def Let_def)
qed

text \<open>
  The grid loop by itself, for a layer element of any width and height that are not
  negative, any owning map and any iterator: when the iterator yields fewer than width
  times height values, the loop raises; when it returns, the grid has height rows of
  width cells, each 0 or a compact GID of the map's forward table.
\<close>

lemma fill_grid_loop:
  "(0 \<le> tl_width elem \<and> 0 \<le> tl_height elem \<and>
      int (yielded next_gid) < tl_width elem * tl_height elem \<longrightarrow>
      (\<exists>e. fill_grid elem parent next_gid = Inl e)) \<and>
   (fill_grid elem parent next_gid = Inr (elem', parent') \<longrightarrow>
      elem' = elem\<lparr>tl_data := tl_data elem'\<rparr> \<and>
      length (tl_data elem') = nat (tl_height elem) \<and>
      (\<forall>row \<in> set (tl_data elem'). length row = nat (tl_width elem) \<and>
         (\<forall>g \<in> set row. allocated parent' g \<and> 0 \<le> g \<and> g \<le> 65535)))"
  using fill_grid_truncated [of elem next_gid parent] fill_grid_shape [of elem parent next_gid elem' parent']
  by blast

text \<open>
  In \<open>TileLayer.from_xml\<close> itself the element is the constructor's, and \<open>set_properties\<close>
  only fills its property dictionary (its docstring says that it reads the xml
  attributes too): the width and height that the grid loop reads are 0 there, the loop
  asks for no value, and the grid has no row.
\<close>

lemma TileLayer_from_xml_grid:
  assumes "TileLayer_from_xml lib parent node = Inr (l, m)"
  shows "tl_width l = 0 \<and> tl_height l = 0 \<and> tl_data l = [] \<and> parent = Some m"
proof -
  from assms obtain d next_gid m0 where
    p: "parent = Some m0"
    and f: "fill_grid (TileLayer_init\<lparr>tl_properties := d\<rparr>) m0 next_gid = Inr (l, m)"
    by (auto simp: TileLayer_from_xml_def Let_def split: sum.splits option.splits)
  from f have "l = TileLayer_init\<lparr>tl_properties := d, tl_data := []\<rparr> \<and> m = m0"
    by (auto simp: fill_grid_def TileLayer_init_def)
  with p show ?thesis by (simp add: TileLayer_init_def)
qed



text \<open>
  Claim C6. A data element whose encoding is a nonempty string other than \<open>csv\<close> and
  \<open>base64\<close> makes the payload decoder raise Exception. A data element whose compression
  is a nonempty string other than \<open>gzip\<close> and \<open>zlib\<close> makes it raise too: the exception
  of the encoding step if that step fails, and Exception otherwise. In both cases
  \<open>TileLayer.from_xml\<close> raises on a layer node with this data element, whatever the owning
  map: no layer is returned. (The empty string counts as no attribute: it is false in
  the tests \<open>elif encoding:\<close> and \<open>elif compression:\<close>.)
\<close>

theorem unsupported_codec_raises:
  "((\<exists>e. xml_get data_node ''encoding'' = Some e \<and> e \<notin> {[], ''csv'', ''base64''}) \<longrightarrow>
      decode_payload lib data_node = Inl PyException) \<and>
   ((\<exists>c. xml_get data_node ''compression'' = Some c \<and> c \<notin> {[], ''gzip'', ''zlib''}) \<longrightarrow>
      (\<exists>e. decode_payload lib data_node = Inl e) \<and>
      (\<forall>r. decode_encoding lib data_node = Inr r \<longrightarrow> decode_payload lib data_node = Inl PyException)) \<and>
   (((\<exists>e. xml_get data_node ''encoding'' = Some e \<and> e \<notin> {[], ''csv'', ''base64''}) \<or>
     (\<exists>c. xml_get data_node ''compression'' = Some c \<and> c \<notin> {[], ''gzip'', ''zlib''})) \<and>
    find node ''data'' = Some data_node \<longrightarrow>
      (\<exists>e. TileLayer_from_xml lib parent node = Inl e))"
proof -
  have enc: "decode_payload lib data_node = Inl PyException"
    if "\<exists>e. xml_get data_node ''encoding'' = Some e \<and> e \<notin> {[], ''csv'', ''base64''}"
    using that by (auto simp: decode_payload_def decode_encoding_def truthy_def)
  have comp1: "decode_payload lib data_node = Inl PyException"
    if "\<exists>c. xml_get data_node ''compression'' = Some c \<and> c \<notin> {[], ''gzip'', ''zlib''}"
      "decode_encoding lib data_node = Inr r" for r
    using that by (cases r) (auto simp: decode_payload_def decode_compression_def truthy_def)
  have comp2: "\<exists>e. decode_payload lib data_node = Inl e"
    if c: "\<exists>c. xml_get data_node ''compression'' = Some c \<and> c \<notin> {[], ''gzip'', ''zlib''}"
  proof (cases "decode_encoding lib data_node")
    case (Inl e)
    then show ?thesis by (simp add: decode_payload_def)
  next
    case (Inr r)
    from comp1 [OF c Inr] show ?thesis by blast
  qed
  have full: "\<exists>e. TileLayer_from_xml lib parent node = Inl e"
    if "\<exists>e. decode_payload lib data_node = Inl e" "find node ''data'' = Some data_node"
    using that by (auto simp: TileLayer_from_xml_def Let_def split: sum.splits)
  from enc comp1 comp2 full show ?thesis by blast
qed

theorem unsupported_codec_raises_witness:
  "decode_payload
     \<lparr>lib_float = (\<lambda>s. None), lib_b64decode = (\<lambda>s. Inr [1, 0, 0, 0]),
      lib_gzip_read = (\<lambda>d. Inl LibraryError), lib_zlib_decompress = (\<lambda>d. Inl LibraryError),
      lib_fromstring = (\<lambda>s. Inl LibraryError)\<rparr>
     (Element ''data'' [(''encoding'', ''base64''), (''compression'', ''bzip2'')] (Some ''AQAAAA=='') []) =
     Inl PyException \<and>
   decode_payload
     \<lparr>lib_float = (\<lambda>s. None), lib_b64decode = (\<lambda>s. Inr [1, 0, 0, 0]),
      lib_gzip_read = (\<lambda>d. Inl LibraryError), lib_zlib_decompress = (\<lambda>d. Inl LibraryError),
      lib_fromstring = (\<lambda>s. Inl LibraryError)\<rparr>
     (Element ''data'' [(''encoding'', ''xml'')] None []) = Inl PyException \<and>
   (\<exists>e. TileLayer_from_xml
     \<lparr>lib_float = (\<lambda>s. None), lib_b64decode = (\<lambda>s. Inr [1, 0, 0, 0]),
      lib_gzip_read = (\<lambda>d. Inl LibraryError), lib_zlib_decompress = (\<lambda>d. Inl LibraryError),
      lib_fromstring = (\<lambda>s. Inl LibraryError)\<rparr>
     (Some TiledMap_init)
     (Element ''layer'' [] None [Element ''data'' [(''encoding'', ''xml'')] None []]) = Inl e)"
proof -
  let ?lib = "\<lparr>lib_float = (\<lambda>s. None), lib_b64decode = (\<lambda>s. Inr [1, 0, 0, 0]),
      lib_gzip_read = (\<lambda>d. Inl LibraryError), lib_zlib_decompress = (\<lambda>d. Inl LibraryError),
      lib_fromstring = (\<lambda>s. Inl LibraryError)\<rparr>"
  let ?d1 = "Element ''data'' [(''encoding'', ''base64''), (''compression'', ''bzip2'')] (Some ''AQAAAA=='') []"
  let ?d2 = "Element ''data'' [(''encoding'', ''xml'')] None []"
  let ?node = "Element ''layer'' [] None [?d2]"
  have c1: "\<exists>c. xml_get ?d1 ''compression'' = Some c \<and> c \<notin> {[], ''gzip'', ''zlib''}"
    by (simp add: xml_get_def)
  have e1: "decode_encoding ?lib ?d1 = Inr (Some [1, 0, 0, 0], None)"
    by (simp add: decode_encoding_def xml_get_def)
  have e2: "\<exists>e. xml_get ?d2 ''encoding'' = Some e \<and> e \<notin> {[], ''csv'', ''base64''}"
    by (simp add: xml_get_def)
  have f: "find ?node ''data'' = Some ?d2"
    by (simp add: find_def findall_def)
  from unsupported_codec_raises [of ?d1 ?lib] c1 e1
  have a: "decode_payload ?lib ?d1 = Inl PyException" by blast
  from unsupported_codec_raises [of ?d2 ?lib] e2
  have b: "decode_payload ?lib ?d2 = Inl PyException" by blast
  from unsupported_codec_raises [of ?d2 ?lib ?node "Some TiledMap_init"] e2 f
  have c: "\<exists>e. TileLayer_from_xml ?lib (Some TiledMap_init) ?node = Inl e" by blast
  from a b c show ?thesis by blast
qed

section \<open>Proofs: tilesets and maps\<close>

lemma tile_loop_raises: "\<exists>e. tile_loop elem parent (child # rest) = Inl e"
  by (cases "int_of_attr (xml_get child ''id'')")
     (simp_all add: parse_properties_def setitem_def)

lemma tile_loop_TypeError:
  "int_of_attr (xml_get child ''id'') = Inr t \<Longrightarrow> tile_loop elem parent (child # rest) = Inl TypeError"
  by (simp add: parse_properties_def setitem_def)

lemmas xml_eval = xml_get_def find_def findall_def read_properties_def int_of_attr_def
  py_int_def int_strip_def int_space_def py_unsigned_def is_digit_def digit_val_def

text \<open>
  Claim C4 says that parsing a tileset stores each tile's property dictionary, with the
  width and height of the tileset, under every compact GID registered for the tile's
  base GID, and that a tile without registrations is not an error. The code does not do
  so: \<open>parse_properties\<close> returns None, and the assignment \<open>p['width'] = ...\<close> raises. For
  every tileset, map and tile element, the tile loop raises at the first tile element
  (TypeError when its id is an integer). With raw GID 13 registered plain and with
  FLIP_Y (compact GIDs 1 and 2), a tileset with \<open>firstgid=10\<close> and a tile with \<open>id=3\<close>
  makes the loop, and \<open>Tileset.from_xml\<close>, raise TypeError; so does the same tile on a
  fresh map, where nothing is registered.
\<close>

theorem tileset_tile_block_raises:
  "(\<exists>e. tile_loop elem parent (child # rest) = Inl e) \<and>
   fst (run_calls TiledMap_init [Register 13 0, Register 13 2]) = [Gid 1, Gid 2] \<and>
   tile_loop (Tileset_init\<lparr>ts_firstgid := 10\<rparr>)
     (Some (snd (run_calls TiledMap_init [Register 13 0, Register 13 2])))
     [Element ''tile'' [(''id'', ''3'')] None
        [Element ''properties'' [] None
           [Element ''property'' [(''name'', ''kind''), (''value'', ''wall'')] None []]]] =
     Inl TypeError \<and>
   tile_loop (Tileset_init\<lparr>ts_firstgid := 10\<rparr>) (Some TiledMap_init)
     [Element ''tile'' [(''id'', ''3'')] None []] = Inl TypeError \<and>
   Tileset_from_xml lib (Some (snd (run_calls TiledMap_init [Register 13 0, Register 13 2])))
     (Element ''tileset'' [(''firstgid'', ''10''), (''name'', ''walls'')] None
        [Element ''image'' [(''source'', ''walls.png''), (''width'', ''64''), (''height'', ''32'')] None [],
         Element ''tile'' [(''id'', ''3'')] None
           [Element ''properties'' [] None
              [Element ''property'' [(''name'', ''kind''), (''value'', ''wall'')] None []]]]) =
     Inl TypeError"
proof -
  have a: "\<exists>e. tile_loop elem parent (child # rest) = Inl e" by (rule tile_loop_raises)
  have b: "fst (run_calls TiledMap_init [Register 13 0, Register 13 2]) = [Gid 1, Gid 2]"
    by (simp add: registry_eval)
  have id3: "int_of_attr (xml_get (Element ''tile'' [(''id'', ''3'')] None cs) ''id'') = Inr 3" for cs
    by (simp add: xml_eval)
  have c: "tile_loop e p (Element ''tile'' [(''id'', ''3'')] None cs # r) = Inl TypeError" for e p cs r
    by (rule tile_loop_TypeError [OF id3])
  have d: "Tileset_from_xml lib p
     (Element ''tileset'' [(''firstgid'', ''10''), (''name'', ''walls'')] None
        [Element ''image'' [(''source'', ''walls.png''), (''width'', ''64''), (''height'', ''32'')] None [],
         Element ''tile'' [(''id'', ''3'')] None
           [Element ''properties'' [] None
              [Element ''property'' [(''name'', ''kind''), (''value'', ''wall'')] None []]]]) =
     Inl TypeError" for p
  proof -
    let ?tile = "Element ''tile'' [(''id'', ''3'')] None
           [Element ''properties'' [] None
              [Element ''property'' [(''name'', ''kind''), (''value'', ''wall'')] None []]]"
    let ?node = "Element ''tileset'' [(''firstgid'', ''10''), (''name'', ''walls'')] None
        [Element ''image'' [(''source'', ''walls.png''), (''width'', ''64''), (''height'', ''32'')] None [],
         ?tile]"
    have ext: "external_source p ?node Tileset_init = Inr Tileset_init"
      by (simp add: external_source_def xml_get_def)
    have rp: "read_properties (lib_float lib) ?node = Inr Map.empty"
      by (simp add: read_properties_def findall_def)
    have gi: "getiterator ?node ''tile'' = [?tile]" by simp
    show ?thesis
      unfolding Tileset_from_xml_def ext rp gi Let_def
      by (simp add: c del: tile_loop.simps)
  qed
  from a b c d show ?thesis by blast
qed

lemma from_string_default:
  "from_string new from_xml fromstring s = Inr r \<Longrightarrow> r = new"
  by (auto simp: from_string_def split: sum.splits)

text \<open>
  Claim C5 says that a map built from an XML string is the parsed map that \<open>from_xml\<close>
  builds from the string's tree. The code does not do so: \<open>from_string\<close> drops what
  \<open>from_xml\<close> returns, so whenever it returns, it returns the map as the constructor
  leaves it. For the string \<open><map backgroundcolor='#204060'/>\<close>, \<open>from_xml\<close> on its tree
  gives a map with that background colour, and \<open>from_string\<close> gives the constructor's
  map, whose background colour is None.
\<close>

theorem from_string_returns_default:
  "(TiledMap_from_string lib s = Inr TiledMap_init \<or> (\<exists>e. TiledMap_from_string lib s = Inl e)) \<and>
   TiledMap_from_xml
     \<lparr>lib_float = (\<lambda>s. None), lib_b64decode = (\<lambda>s. Inl LibraryError),
      lib_gzip_read = (\<lambda>d. Inl LibraryError), lib_zlib_decompress = (\<lambda>d. Inl LibraryError),
      lib_fromstring = (\<lambda>s. if s = ''<map backgroundcolor='#204060'/>''
         then Inr (Element ''map'' [(''backgroundcolor'', ''#204060'')] None [])
         else Inl LibraryError)\<rparr>
     (Element ''map'' [(''backgroundcolor'', ''#204060'')] None []) =
     Inr (TiledMap_init\<lparr>background_color := Some ''#204060''\<rparr>) \<and>
   TiledMap_from_string
     \<lparr>lib_float = (\<lambda>s. None), lib_b64decode = (\<lambda>s. Inl LibraryError),
      lib_gzip_read = (\<lambda>d. Inl LibraryError), lib_zlib_decompress = (\<lambda>d. Inl LibraryError),
      lib_fromstring = (\<lambda>s. if s = ''<map backgroundcolor='#204060'/>''
         then Inr (Element ''map'' [(''backgroundcolor'', ''#204060'')] None [])
         else Inl LibraryError)\<rparr>
     ''<map backgroundcolor='#204060'/>'' = Inr TiledMap_init \<and>
   background_color TiledMap_init = None"
proof -
  let ?node = "Element ''map'' [(''backgroundcolor'', ''#204060'')] None []"
  let ?lib = "\<lparr>lib_float = (\<lambda>s. None), lib_b64decode = (\<lambda>s. Inl LibraryError),
      lib_gzip_read = (\<lambda>d. Inl LibraryError), lib_zlib_decompress = (\<lambda>d. Inl LibraryError),
      lib_fromstring = (\<lambda>s. if s = ''<map backgroundcolor='#204060'/>''
         then Inr ?node else Inl LibraryError)\<rparr>"
  have a: "TiledMap_from_string lib s = Inr TiledMap_init \<or> (\<exists>e. TiledMap_from_string lib s = Inl e)"
  proof (cases "TiledMap_from_string lib s")
    case (Inl e)
    then show ?thesis by blast
  next
    case (Inr r)
    then have "r = TiledMap_init"
      unfolding TiledMap_from_string_def by (rule from_string_default)
    with Inr show ?thesis by simp
  qed
  have b: "TiledMap_from_xml ?lib ?node = Inr (TiledMap_init\<lparr>background_color := Some ''#204060''\<rparr>)"
    by (simp add: TiledMap_from_xml_def read_properties_def findall_def xml_get_def
        update_objects_def TiledMap_init_def)
  have c: "TiledMap_from_string ?lib ''<map backgroundcolor='#204060'/>'' = Inr TiledMap_init"
    by (simp add: TiledMap_from_string_def from_string_def b)
  have d: "background_color TiledMap_init = None" by (simp add: TiledMap_init_def)
  from a b c d show ?thesis by blast
qed

end
